theory Spec2Isabelle
  imports Main
begin

section \<open>Data model of jujuchat/tokenizer.py\<close>

text \<open>
  Python exceptions raised by the modelled functions. A failed \<^verbatim>\<open>assert\<close> is
  \<open>AssertionError\<close>, an explicit \<^verbatim>\<open>raise ValueError\<close> is \<open>ValueError\<close>, a list
  index out of range is \<open>IndexError\<close>, a reserved name unknown to the encoder is
  \<open>KeyError\<close> (tiktoken's \<^verbatim>\<open>encode_single_token\<close>), and \<^verbatim>\<open>+\<close> between a string
  and a value of another type is \<open>TypeError\<close>.
\<close>

datatype error = AssertionError | ValueError | IndexError | KeyError | TypeError

text \<open>
  A part of an assistant message is the dict \<^verbatim>\<open>{"type": ..., "text": ...}\<close>. The
  content of a message is a string, a list of parts, or a value of any other Python
  type (\<open>Other\<close>: None, a number, a dict, ...). Roles are compared as strings by the
  source, so a role is a string here.
\<close>

record part =
  ptype :: string
  ptext :: string

datatype content = Str string | Parts "part list" | Other

record message =
  role :: string
  content :: content

record conversation =
  messages :: "message list"

text \<open>
  The tiktoken encoding object is an external collaborator: \<open>encode_ordinary\<close> is its
  ordinary (non-structural) encoder and \<open>encode_single_token\<close> resolves a reserved
  name, \<open>None\<close> standing for the KeyError it raises on an unknown name.
\<close>

record encoding =
  encode_ordinary :: "string \<Rightarrow> int list"
  encode_single_token :: "string \<Rightarrow> int option"

record tokenizer =
  enc :: encoding
  bos_token_id :: int

definition SPECIAL_TOKENS :: "string list" where
  "SPECIAL_TOKENS =
     [''<|bos|>'', ''<|user_start|>'', ''<|user_end|>'', ''<|assistant_start|>'',
      ''<|assistant_end|>'', ''<|python_start|>'', ''<|python_end|>'',
      ''<|output_start|>'', ''<|output_end|>'']"

section \<open>Construction of the tokenizer\<close>

text \<open>
  \<^verbatim>\<open>encode_special\<close>: the lru_cache only memoises a pure lookup, so the model is the
  lookup itself.
\<close>

definition encode_special_enc :: "encoding \<Rightarrow> string \<Rightarrow> error + int" where
  "encode_special_enc e name =
     (case encode_single_token e name of None \<Rightarrow> Inl KeyError | Some i \<Rightarrow> Inr i)"

definition encode_special :: "tokenizer \<Rightarrow> string \<Rightarrow> error + int" where
  "encode_special tok name = encode_special_enc (enc tok) name"

text \<open>\<^verbatim>\<open>RustBPETokenizer.__init__(enc, bos_token)\<close>: stores enc and resolves the BOS name.\<close>

definition init_tokenizer :: "encoding \<Rightarrow> string \<Rightarrow> error + tokenizer" where
  "init_tokenizer e bos_token =
     (case encode_special_enc e bos_token of
        Inl err \<Rightarrow> Inl err
      | Inr b \<Rightarrow> Inr \<lparr>enc = e, bos_token_id = b\<rparr>)"

text \<open>
  \<^verbatim>\<open>train_from_iterator\<close>, line 62: the special-token dict
  \<^verbatim>\<open>{name: tokens_offset + i for i, name in enumerate(SPECIAL_TOKENS)}\<close>, as the list
  of its items.
\<close>

definition special_tokens_dict :: "int \<Rightarrow> (string \<times> int) list" where
  "special_tokens_dict tokens_offset =
     map (\<lambda>(i, name). (name, tokens_offset + int i)) (enumerate 0 SPECIAL_TOKENS)"

text \<open>
  The encoding \<^verbatim>\<open>train_from_iterator\<close> hands to \<^verbatim>\<open>__init__\<close> (lines 56-69). The
  trained ordinary encoder is a parameter; \<open>mergeable_ranks\<close> is the dict of line 58
  as the list of its items (token bytes and rank, the keys distinct), and
  \<open>tokens_offset\<close> is its length. tiktoken's \<^verbatim>\<open>encode_single_token\<close> looks a piece
  up among the ordinary tokens first and among the special tokens after that.
\<close>

definition trained_encoding :: "(string \<Rightarrow> int list) \<Rightarrow> (string \<times> int) list \<Rightarrow> encoding" where
  "trained_encoding ordinary mergeable_ranks =
     (let tokens_offset = int (length mergeable_ranks);
          special_tokens = special_tokens_dict tokens_offset
      in \<lparr>encode_ordinary = ordinary,
          encode_single_token =
            (\<lambda>piece. case map_of mergeable_ranks piece of
                        Some rank \<Rightarrow> Some rank
                      | None \<Rightarrow> map_of special_tokens piece)\<rparr>)"

definition get_bos_token_id :: "tokenizer \<Rightarrow> int" where
  "get_bos_token_id tok = bos_token_id tok"

section \<open>The batch encode facade\<close>

text \<open>
  \<^verbatim>\<open>encode(text, prepend=None, append=None)\<close>. The text argument is a string, a list
  of strings or anything else; prepend and append are None, an int or a reserved
  name. The result is one id list or one id list per text.
\<close>

datatype text_input = Text string | TextList "string list" | OtherInput

datatype token_ref = TokenId int | TokenName string

datatype encoded = Ids "int list" | IdsBatch "int list list"

definition resolve_ref :: "tokenizer \<Rightarrow> token_ref option \<Rightarrow> error + int option" where
  "resolve_ref tok r =
     (case r of
        None \<Rightarrow> Inr None
      | Some (TokenId i) \<Rightarrow> Inr (Some i)
      | Some (TokenName n) \<Rightarrow>
          (case encode_special tok n of Inl e \<Rightarrow> Inl e | Inr i \<Rightarrow> Inr (Some i)))"

definition insert_front :: "int option \<Rightarrow> int list \<Rightarrow> int list" where
  "insert_front p ids = (case p of None \<Rightarrow> ids | Some i \<Rightarrow> i # ids)"

definition append_back :: "int option \<Rightarrow> int list \<Rightarrow> int list" where
  "append_back a ids = (case a of None \<Rightarrow> ids | Some i \<Rightarrow> ids @ [i])"

definition encode :: "tokenizer \<Rightarrow> text_input \<Rightarrow> token_ref option \<Rightarrow> token_ref option
    \<Rightarrow> error + encoded" where
  "encode tok text prepend_arg append_arg =
     (case resolve_ref tok prepend_arg of
        Inl e \<Rightarrow> Inl e
      | Inr prepend_id \<Rightarrow>
     (case resolve_ref tok append_arg of
        Inl e \<Rightarrow> Inl e
      | Inr append_id \<Rightarrow>
     (case text of
        Text s \<Rightarrow>
          Inr (Ids (append_back append_id
                 (insert_front prepend_id (encode_ordinary (enc tok) s))))
      | TextList ts \<Rightarrow>
          Inr (IdsBatch (map (append_back append_id)
                 (map (insert_front prepend_id) (map (encode_ordinary (enc tok)) ts))))
      | OtherInput \<Rightarrow> Inl ValueError)))"

section \<open>The conversation renderer\<close>

text \<open>The pair of lists \<^verbatim>\<open>ids, mask\<close> that the closure \<^verbatim>\<open>add_tokens\<close> extends.\<close>

type_synonym rstate = "int list \<times> int list"

datatype token_arg = One int | Many "int list"

text \<open>Lines 198-199: a single id is wrapped into a one-element list.\<close>

fun as_list :: "token_arg \<Rightarrow> int list" where
  "as_list (One t) = [t]"
| "as_list (Many ts) = ts"

definition add_tokens :: "token_arg \<Rightarrow> int \<Rightarrow> rstate \<Rightarrow> rstate" where
  "add_tokens token_ids mask_val st =
     (let ts = as_list token_ids
      in (fst st @ ts, snd st @ replicate (length ts) mask_val))"

text \<open>Python's \<^verbatim>\<open>+\<close> on message contents: defined on two strings and on two lists.\<close>

fun py_add :: "content \<Rightarrow> content \<Rightarrow> error + content" where
  "py_add (Str a) (Str b) = Inr (Str (a @ b))"
| "py_add (Parts a) (Parts b) = Inr (Parts (a @ b))"
| "py_add _ _ = Inl TypeError"

text \<open>
  Lines 205-218: the system-message surgery, for a conversation given by value, that
  is, one whose message dicts are pairwise distinct objects: the assignment to
  \<^verbatim>\<open>messages[1]["content"]\<close> then changes the second message only. The deep copy
  keeps the caller's conversation untouched; the model is pure, so it returns the
  working list. A conversation in which one dict sits at several positions of the
  list is modelled with an explicit store (\<open>merge_system_shared\<close> below).
\<close>

definition merge_system :: "conversation \<Rightarrow> error + message list" where
  "merge_system conv =
     (case messages conv of
        [] \<Rightarrow> Inl IndexError
      | m0 # rest \<Rightarrow>
          if role m0 = ''system'' then
            (case rest of
               [] \<Rightarrow> Inl IndexError
             | m1 # rest' \<Rightarrow>
                 if role m1 \<noteq> ''user'' then Inl AssertionError
                 else
                   (case py_add (content m0) (Str [CHR 0x0A, CHR 0x0A]) of
                      Inl e \<Rightarrow> Inl e
                    | Inr c0 \<Rightarrow>
                   (case py_add c0 (content m1) of
                      Inl e \<Rightarrow> Inl e
                    | Inr c \<Rightarrow> Inr (m1\<lparr>content := c\<rparr> # rest'))))
          else Inr (messages conv))"

text \<open>Lines 222-226: the reserved ids fetched before anything is emitted.\<close>

record specials =
  user_start :: int
  user_end :: int
  assistant_start :: int
  assistant_end :: int
  python_start :: int
  python_end :: int
  output_start :: int
  output_end :: int

definition fetch_specials :: "tokenizer \<Rightarrow> error + specials" where
  "fetch_specials tok =
     (case encode_special tok ''<|user_start|>'' of Inl e \<Rightarrow> Inl e | Inr us \<Rightarrow>
     (case encode_special tok ''<|user_end|>'' of Inl e \<Rightarrow> Inl e | Inr ue \<Rightarrow>
     (case encode_special tok ''<|assistant_start|>'' of Inl e \<Rightarrow> Inl e | Inr ast \<Rightarrow>
     (case encode_special tok ''<|assistant_end|>'' of Inl e \<Rightarrow> Inl e | Inr ae \<Rightarrow>
     (case encode_special tok ''<|python_start|>'' of Inl e \<Rightarrow> Inl e | Inr ps \<Rightarrow>
     (case encode_special tok ''<|python_end|>'' of Inl e \<Rightarrow> Inl e | Inr pe \<Rightarrow>
     (case encode_special tok ''<|output_start|>'' of Inl e \<Rightarrow> Inl e | Inr ost \<Rightarrow>
     (case encode_special tok ''<|output_end|>'' of Inl e \<Rightarrow> Inl e | Inr oe \<Rightarrow>
        Inr \<lparr>user_start = us, user_end = ue, assistant_start = ast, assistant_end = ae,
             python_start = ps, python_end = pe, output_start = ost, output_end = oe\<rparr>))))))))"

text \<open>
  \<^verbatim>\<open>self.encode(content)\<close> on a string with no prepend and no append is the ordinary
  encoding (lemma \<open>encode_plain\<close> below).
\<close>

definition encode_str :: "tokenizer \<Rightarrow> string \<Rightarrow> int list" where
  "encode_str tok s = encode_ordinary (enc tok) s"

text \<open>Lines 262-282: one iteration of the loop over the parts of an assistant message.\<close>

definition render_part :: "tokenizer \<Rightarrow> specials \<Rightarrow> part \<Rightarrow> rstate \<Rightarrow> error + rstate" where
  "render_part tok sp p st =
     (let value_ids = encode_str tok (ptext p) in
      if ptype p = ''text'' then Inr (add_tokens (Many value_ids) 1 st)
      else if ptype p = ''python'' then
        Inr (add_tokens (One (python_end sp)) 1
              (add_tokens (Many value_ids) 1
                (add_tokens (One (python_start sp)) 1 st)))
      else if ptype p = ''python_output'' then
        Inr (add_tokens (One (output_end sp)) 0
              (add_tokens (Many value_ids) 0
                (add_tokens (One (output_start sp)) 0 st)))
      else Inl ValueError)"

fun render_parts :: "tokenizer \<Rightarrow> specials \<Rightarrow> part list \<Rightarrow> rstate \<Rightarrow> error + rstate" where
  "render_parts tok sp [] st = Inr st"
| "render_parts tok sp (p # ps) st =
     (case render_part tok sp p st of
        Inl e \<Rightarrow> Inl e
      | Inr st' \<Rightarrow> render_parts tok sp ps st')"

text \<open>Lines 233-286: the body of the loop over the messages, at index \<open>i\<close>.\<close>

definition must_be_from :: "nat \<Rightarrow> string" where
  "must_be_from i = (if i mod 2 = 0 then ''user'' else ''assistant'')"

definition render_message :: "tokenizer \<Rightarrow> specials \<Rightarrow> nat \<Rightarrow> message \<Rightarrow> rstate
    \<Rightarrow> error + rstate" where
  "render_message tok sp i m st =
     (if role m \<noteq> must_be_from i then Inl AssertionError
      else if role m = ''user'' then
        (case content m of
           Str c \<Rightarrow>
             Inr (add_tokens (One (user_end sp)) 0
                   (add_tokens (Many (encode_str tok c)) 0
                     (add_tokens (One (user_start sp)) 0 st)))
         | _ \<Rightarrow> Inl AssertionError)
      else if role m = ''assistant'' then
        (case
           (case content m of
              Str c \<Rightarrow>
                Inr (add_tokens (Many (encode_str tok c)) 1
                      (add_tokens (One (assistant_start sp)) 0 st))
            | Parts ps \<Rightarrow>
                render_parts tok sp ps (add_tokens (One (assistant_start sp)) 0 st)
            | Other \<Rightarrow> Inl ValueError)
         of
           Inl e \<Rightarrow> Inl e
         | Inr st' \<Rightarrow> Inr (add_tokens (One (assistant_end sp)) 1 st'))
      else Inr st)"

fun render_messages :: "tokenizer \<Rightarrow> specials \<Rightarrow> nat \<Rightarrow> message list \<Rightarrow> rstate
    \<Rightarrow> error + rstate" where
  "render_messages tok sp i [] st = Inr st"
| "render_messages tok sp i (m # ms) st =
     (case render_message tok sp i m st of
        Inl e \<Rightarrow> Inl e
      | Inr st' \<Rightarrow> render_messages tok sp (Suc i) ms st')"

text \<open>
  Lines 193-286: everything \<^verbatim>\<open>render_conversation\<close> does before it truncates. The
  result is the pair \<^verbatim>\<open>ids, mask\<close> as it stands after the loop.
\<close>

definition emit_conversation :: "tokenizer \<Rightarrow> conversation \<Rightarrow> error + rstate" where
  "emit_conversation tok conv =
     (case merge_system conv of
        Inl e \<Rightarrow> Inl e
      | Inr msgs \<Rightarrow>
          if \<not> length msgs \<ge> 1 then Inl AssertionError
          else
            (case fetch_specials tok of
               Inl e \<Rightarrow> Inl e
             | Inr sp \<Rightarrow>
                 render_messages tok sp 0 msgs
                   (add_tokens (One (get_bos_token_id tok)) 0 ([], []))))"

text \<open>
  Python's slice \<^verbatim>\<open>xs[:n]\<close> for an int \<open>n\<close>: a negative \<open>n\<close> counts from the end
  and is clamped at the start of the list.
\<close>

definition py_slice_to :: "'a list \<Rightarrow> int \<Rightarrow> 'a list" where
  "py_slice_to xs n =
     (if 0 \<le> n then take (nat n) xs else take (length xs - nat (- n)) xs)"

text \<open>Lines 288-292: the truncation and the return.\<close>

definition render_conversation :: "tokenizer \<Rightarrow> conversation \<Rightarrow> int \<Rightarrow> error + rstate" where
  "render_conversation tok conv max_tokens =
     (case emit_conversation tok conv of
        Inl e \<Rightarrow> Inl e
      | Inr (ids, msk) \<Rightarrow> Inr (py_slice_to ids max_tokens, py_slice_to msk max_tokens))"

definition default_max_tokens :: int where
  "default_max_tokens = 2048"

section \<open>The renderer on conversations with shared message objects\<close>

text \<open>
  In Python the message list holds references to dicts, and one dict may sit at
  several positions. \<open>objects\<close> is the store (a reference to the dict it names) and
  \<open>message_refs\<close> the list \<^verbatim>\<open>conversation["messages"]\<close>. \<^verbatim>\<open>copy.deepcopy\<close> keeps the
  sharing inside the conversation, so the working copy has the same shape, and the
  assignment \<^verbatim>\<open>messages[1]["content"] = ...\<close> (line 213) updates the object that
  \<^verbatim>\<open>messages[1]\<close> refers to, at every position where it sits.
\<close>

record shared_conversation =
  objects :: "nat \<Rightarrow> message"
  message_refs :: "nat list"

definition merge_system_shared :: "shared_conversation \<Rightarrow> error + shared_conversation" where
  "merge_system_shared sc =
     (case message_refs sc of
        [] \<Rightarrow> Inl IndexError
      | r0 # rest \<Rightarrow>
          if role (objects sc r0) = ''system'' then
            (case rest of
               [] \<Rightarrow> Inl IndexError
             | r1 # rest' \<Rightarrow>
                 if role (objects sc r1) \<noteq> ''user'' then Inl AssertionError
                 else
                   (case py_add (content (objects sc r0)) (Str [CHR 0x0A, CHR 0x0A]) of
                      Inl e \<Rightarrow> Inl e
                    | Inr c0 \<Rightarrow>
                   (case py_add c0 (content (objects sc r1)) of
                      Inl e \<Rightarrow> Inl e
                    | Inr c \<Rightarrow>
                        Inr \<lparr>objects = (objects sc)(r1 := (objects sc r1)\<lparr>content := c\<rparr>),
                             message_refs = r1 # rest'\<rparr>)))
          else Inr sc)"

text \<open>The messages the loop reads, in order: each reference looked up in the store.\<close>

definition messages_of :: "shared_conversation \<Rightarrow> message list" where
  "messages_of sc = map (objects sc) (message_refs sc)"

definition emit_conversation_shared :: "tokenizer \<Rightarrow> shared_conversation \<Rightarrow> error + rstate" where
  "emit_conversation_shared tok sc =
     (case merge_system_shared sc of
        Inl e \<Rightarrow> Inl e
      | Inr sc' \<Rightarrow>
          if \<not> length (messages_of sc') \<ge> 1 then Inl AssertionError
          else
            (case fetch_specials tok of
               Inl e \<Rightarrow> Inl e
             | Inr sp \<Rightarrow>
                 render_messages tok sp 0 (messages_of sc')
                   (add_tokens (One (get_bos_token_id tok)) 0 ([], []))))"

definition render_conversation_shared :: "tokenizer \<Rightarrow> shared_conversation \<Rightarrow> int
    \<Rightarrow> error + rstate" where
  "render_conversation_shared tok sc max_tokens =
     (case emit_conversation_shared tok sc of
        Inl e \<Rightarrow> Inl e
      | Inr (ids, msk) \<Rightarrow> Inr (py_slice_to ids max_tokens, py_slice_to msk max_tokens))"

text \<open>
  The object of the second message does not sit at a later position (asked only
  when the first message is a system message, the one case in which the renderer
  assigns to an object).
\<close>

definition second_not_shared :: "shared_conversation \<Rightarrow> bool" where
  "second_not_shared sc =
     (case message_refs sc of
        r0 # r1 # rest \<Rightarrow> role (objects sc r0) = ''system'' \<longrightarrow> r1 \<notin> set rest
      | _ \<Rightarrow> True)"

text \<open>
  Three objects, a system, a user and an assistant message, for the conversation
  \<^verbatim>\<open>[s, u, a, u]\<close> in which the dict \<^verbatim>\<open>u\<close> sits at two positions; and the three
  distinct objects of the conversation C3 compares it with.
\<close>

definition shared_example_objects :: "nat \<Rightarrow> message" where
  "shared_example_objects r =
     (if r = 0 then \<lparr>role = ''system'', content = Str ''S''\<rparr>
      else if r = 1 then \<lparr>role = ''user'', content = Str ''U''\<rparr>
      else \<lparr>role = ''assistant'', content = Str ''A''\<rparr>)"

definition merged_example_objects :: "nat \<Rightarrow> message" where
  "merged_example_objects r =
     (if r = 0 then \<lparr>role = ''user'', content = Str [CHR ''S'', CHR 0x0A, CHR 0x0A, CHR ''U'']\<rparr>
      else if r = 1 then \<lparr>role = ''assistant'', content = Str ''A''\<rparr>
      else \<lparr>role = ''user'', content = Str ''U''\<rparr>)"

section \<open>The completion renderer\<close>

text \<open>
  \<^verbatim>\<open>render_for_completion\<close>: \<^verbatim>\<open>messages[-1]\<close> raises IndexError on an empty list; the
  last message is popped and the rest rendered with the default bound.
\<close>

definition render_for_completion :: "tokenizer \<Rightarrow> conversation \<Rightarrow> error + int list" where
  "render_for_completion tok conv =
     (if messages conv = [] then Inl IndexError
      else if role (last (messages conv)) \<noteq> ''assistant'' then Inl AssertionError
      else
        (case render_conversation tok (conv\<lparr>messages := butlast (messages conv)\<rparr>)
                default_max_tokens of
           Inl e \<Rightarrow> Inl e
         | Inr (ids, msk) \<Rightarrow>
             (case encode_special tok ''<|assistant_start|>'' of
                Inl e \<Rightarrow> Inl e
              | Inr a \<Rightarrow> Inr (ids @ [a]))))"

section \<open>A concrete tokenizer for evaluation\<close>

text \<open>
  The encoding of a vocabulary of the 256 single bytes and no merges: the ordinary
  encoder gives each character its code, a single byte resolves to its code, and
  the reserved names come after the 256 byte tokens. It is the encoding
  \<^verbatim>\<open>train_from_iterator\<close> builds from these ranks (lemma \<open>byte_encoding_trained\<close>).
\<close>

definition byte_ranks :: "(string \<times> int) list" where
  "byte_ranks = map (\<lambda>i. ([char_of i], int i)) [0..<256]"

definition byte_encoding :: encoding where
  "byte_encoding =
     \<lparr>encode_ordinary = map (\<lambda>c. int (of_char c)),
      encode_single_token =
        (\<lambda>piece. case piece of
                    [c] \<Rightarrow> Some (int (of_char c))
                  | _ \<Rightarrow> map_of (special_tokens_dict 256) piece)\<rparr>"

definition byte_tokenizer :: tokenizer where
  "byte_tokenizer = \<lparr>enc = byte_encoding, bos_token_id = 256\<rparr>"

section \<open>Auxiliary notions for the properties\<close>

text \<open>
  \<open>extends st st'\<close>: the pair \<open>st'\<close> is \<open>st\<close> with equally many ids and mask
  values appended, every appended mask value 0 or 1.
\<close>

definition extends :: "rstate \<Rightarrow> rstate \<Rightarrow> bool" where
  "extends st st' \<longleftrightarrow>
     (\<exists>a b. st' = (fst st @ a, snd st @ b) \<and> length a = length b \<and> set b \<subseteq> {0, 1})"

text \<open>
  The part kinds the renderer knows, and the contents it takes from a message: a
  string from either role, a list of parts of known kinds from the assistant only.
\<close>

definition known_part :: "part \<Rightarrow> bool" where
  "known_part p \<longleftrightarrow>
     ptype p = ''text'' \<or> ptype p = ''python'' \<or> ptype p = ''python_output''"

definition content_ok :: "message \<Rightarrow> bool" where
  "content_ok m =
     (case content m of
        Str c \<Rightarrow> True
      | Parts ps \<Rightarrow> role m = ''assistant'' \<and> list_all known_part ps
      | Other \<Rightarrow> False)"

text \<open>
  The malformed conversations of claim C6, in its order: an empty message list; a
  first message from the assistant; a leading system message with no user message
  after it; a user message whose content is not a string; a message whose content
  is of an unrecognized type; an assistant part list with a part of unknown kind.
\<close>

definition is_Str :: "content \<Rightarrow> bool" where
  "is_Str c = (case c of Str s \<Rightarrow> True | _ \<Rightarrow> False)"

definition has_unknown_part :: "message \<Rightarrow> bool" where
  "has_unknown_part m =
     (role m = ''assistant'' \<and>
      (case content m of Parts ps \<Rightarrow> list_ex (\<lambda>p. \<not> known_part p) ps | _ \<Rightarrow> False))"

definition malformed :: "conversation \<Rightarrow> bool" where
  "malformed conv =
     (case messages conv of
        [] \<Rightarrow> True
      | m0 # rest \<Rightarrow>
          role m0 = ''assistant''
        \<or> (role m0 = ''system'' \<and>
             (case rest of [] \<Rightarrow> True | m1 # rest' \<Rightarrow> role m1 \<noteq> ''user''))
        \<or> list_ex (\<lambda>m. role m = ''user'' \<and> \<not> is_Str (content m)) (messages conv)
        \<or> list_ex (\<lambda>m. content m = Other) (messages conv)
        \<or> list_ex has_unknown_part (messages conv))"

text \<open>
  An encoding that \<^verbatim>\<open>from_directory\<close> can unpickle: the byte-level encoding, with
  the names user-start and user-end both on the id 257.
\<close>

definition colliding_encoding :: encoding where
  "colliding_encoding =
     \<lparr>encode_ordinary = map (\<lambda>c. int (of_char c)),
      encode_single_token =
        (\<lambda>piece. case piece of
                    [c] \<Rightarrow> Some (int (of_char c))
                  | _ \<Rightarrow>
                    map_of [(''<|bos|>'', 256), (''<|user_start|>'', 257),
                            (''<|user_end|>'', 257), (''<|assistant_start|>'', 259),
                            (''<|assistant_end|>'', 260), (''<|python_start|>'', 261),
                            (''<|python_end|>'', 262), (''<|output_start|>'', 263),
                            (''<|output_end|>'', 264)] piece)\<rparr>"

definition colliding_tokenizer :: tokenizer where
  "colliding_tokenizer = \<lparr>enc = colliding_encoding, bos_token_id = 256\<rparr>"

text \<open>
  The emission of claim C2, position by position: each emitted id together with
  what it was emitted for. This follows the wording of the claim and of the
  emission algorithm it is taken from (a user message gives user-start, the text's
  ids and user-end; an assistant message gives assistant-start, its text or its
  parts, and assistant-end; a tool call and a tool output give their start token,
  the text's ids and their end token), and is compared below with what the
  renderer computes.
\<close>

datatype origin =
  FromBos | FromUser | FromAssistantStart | FromAssistantText
  | FromToolCall | FromToolOutput | FromAssistantEnd

definition tagged :: "origin \<Rightarrow> int list \<Rightarrow> (int \<times> origin) list" where
  "tagged og ts = map (\<lambda>t. (t, og)) ts"

definition part_trace :: "tokenizer \<Rightarrow> specials \<Rightarrow> part \<Rightarrow> (int \<times> origin) list" where
  "part_trace tok sp p =
     (if ptype p = ''text'' then tagged FromAssistantText (encode_str tok (ptext p))
      else if ptype p = ''python'' then
        tagged FromToolCall (python_start sp # encode_str tok (ptext p) @ [python_end sp])
      else if ptype p = ''python_output'' then
        tagged FromToolOutput (output_start sp # encode_str tok (ptext p) @ [output_end sp])
      else [])"

definition message_trace :: "tokenizer \<Rightarrow> specials \<Rightarrow> message \<Rightarrow> (int \<times> origin) list" where
  "message_trace tok sp m =
     (if role m = ''user'' then
        (case content m of
           Str c \<Rightarrow> tagged FromUser (user_start sp # encode_str tok c @ [user_end sp])
         | _ \<Rightarrow> [])
      else
        (assistant_start sp, FromAssistantStart)
        # (case content m of
             Str c \<Rightarrow> tagged FromAssistantText (encode_str tok c)
           | Parts ps \<Rightarrow> concat (map (part_trace tok sp) ps)
           | Other \<Rightarrow> [])
        @ [(assistant_end sp, FromAssistantEnd)])"

definition conversation_trace :: "tokenizer \<Rightarrow> specials \<Rightarrow> message list
    \<Rightarrow> (int \<times> origin) list" where
  "conversation_trace tok sp msgs =
     (bos_token_id tok, FromBos) # concat (map (message_trace tok sp) msgs)"

text \<open>The mask value the renderer gives to a position, by what it was emitted for.\<close>

fun origin_mask :: "origin \<Rightarrow> int" where
  "origin_mask FromBos = 0"
| "origin_mask FromUser = 0"
| "origin_mask FromAssistantStart = 0"
| "origin_mask FromAssistantText = 1"
| "origin_mask FromToolCall = 1"
| "origin_mask FromToolOutput = 0"
| "origin_mask FromAssistantEnd = 1"

text \<open>The state \<open>st\<close> with a trace appended: its ids, and its mask values by origin.\<close>

definition glue :: "rstate \<Rightarrow> (int \<times> origin) list \<Rightarrow> rstate" where
  "glue st tr = (fst st @ map fst tr, snd st @ map (origin_mask \<circ> snd) tr)"

section \<open>The byte-level encoding is a trained encoding\<close>

lemma length_byte_ranks: "length byte_ranks = 256"
  by (simp add: byte_ranks_def)

lemma distinct_byte_ranks_keys: "distinct (map fst byte_ranks)"
proof -
  have "inj_on (\<lambda>i::nat. [char_of i]) {0..<256}"
    using inj_on_char_of_nat by (auto simp: inj_on_def)
  then show ?thesis
    by (simp add: byte_ranks_def comp_def distinct_map)
qed

lemma map_of_byte_ranks_single: "map_of byte_ranks [c] = Some (int (of_char c))"
proof -
  have "(of_char c :: nat) \<in> set [0..<256]" by simp
  then have "([char_of (of_char c :: nat)], int (of_char c)) \<in> set byte_ranks"
    unfolding byte_ranks_def set_map by (rule image_eqI [rotated]) simp
  then have "([c], int (of_char c)) \<in> set byte_ranks" by simp
  with distinct_byte_ranks_keys show ?thesis by (simp add: map_of_eq_Some_iff)
qed

lemma map_of_byte_ranks_other:
  assumes "length piece \<noteq> 1"
  shows "map_of byte_ranks piece = None"
proof -
  have "piece \<notin> fst ` set byte_ranks"
    using assms by (auto simp: byte_ranks_def)
  then show ?thesis by (simp add: map_of_eq_None_iff)
qed

lemma byte_encoding_trained:
  "byte_encoding = trained_encoding (map (\<lambda>c. int (of_char c))) byte_ranks"
proof -
  have "(case map_of byte_ranks piece of Some rank \<Rightarrow> Some rank
          | None \<Rightarrow> map_of (special_tokens_dict 256) piece)
      = (case piece of [c] \<Rightarrow> Some (int (of_char c))
          | _ \<Rightarrow> map_of (special_tokens_dict 256) piece)" for piece
  proof (cases piece)
    case Nil
    then show ?thesis by (simp add: map_of_byte_ranks_other)
  next
    case (Cons c cs)
    then show ?thesis
      by (cases cs) (simp_all add: map_of_byte_ranks_single map_of_byte_ranks_other)
  qed
  then show ?thesis
    by (simp add: byte_encoding_def trained_encoding_def length_byte_ranks Let_def)
qed

section \<open>The renderer only appends, in step, mask values 0 and 1\<close>

lemma extends_refl: "extends st st"
  unfolding extends_def by (rule exI [of _ "[]"], rule exI [of _ "[]"]) simp

lemma extends_trans: "extends s1 s2 \<Longrightarrow> extends s2 s3 \<Longrightarrow> extends s1 s3"
  unfolding extends_def
proof -
  assume "\<exists>a b. s2 = (fst s1 @ a, snd s1 @ b) \<and> length a = length b \<and> set b \<subseteq> {0, 1}"
    and "\<exists>a b. s3 = (fst s2 @ a, snd s2 @ b) \<and> length a = length b \<and> set b \<subseteq> {0, 1}"
  then obtain a b c d where
    s2: "s2 = (fst s1 @ a, snd s1 @ b)" "length a = length b" "set b \<subseteq> {0, 1}" and
    s3: "s3 = (fst s2 @ c, snd s2 @ d)" "length c = length d" "set d \<subseteq> {0, 1}"
    by blast
  have "s3 = (fst s1 @ (a @ c), snd s1 @ (b @ d))" using s2 s3 by simp
  moreover have "length (a @ c) = length (b @ d)" using s2 s3 by simp
  moreover have "set (b @ d) \<subseteq> {0, 1}" using s2 s3 by simp
  ultimately show "\<exists>a b. s3 = (fst s1 @ a, snd s1 @ b) \<and> length a = length b \<and> set b \<subseteq> {0, 1}"
    by blast
qed

lemma add_tokens_extends:
  "v = 0 \<or> v = 1 \<Longrightarrow> extends st (add_tokens ts v st)"
  by (auto simp: extends_def add_tokens_def Let_def)

lemma add_tokens_extends_step:
  "v = 0 \<or> v = 1 \<Longrightarrow> extends st st1 \<Longrightarrow> extends st (add_tokens ts v st1)"
  by (blast intro: extends_trans add_tokens_extends)

lemma render_part_extends:
  assumes "render_part tok sp p st = Inr st'"
  shows "extends st st'"
proof -
  have "st' = add_tokens (Many (encode_str tok (ptext p))) 1 st
      \<or> st' = add_tokens (One (python_end sp)) 1
              (add_tokens (Many (encode_str tok (ptext p))) 1
                (add_tokens (One (python_start sp)) 1 st))
      \<or> st' = add_tokens (One (output_end sp)) 0
              (add_tokens (Many (encode_str tok (ptext p))) 0
                (add_tokens (One (output_start sp)) 0 st))"
    using assms unfolding render_part_def Let_def by (simp split: if_splits)
  then show ?thesis
    by (elim disjE) (simp_all add: add_tokens_extends_step extends_refl)
qed

lemma render_parts_extends:
  "render_parts tok sp ps st = Inr st' \<Longrightarrow> extends st st'"
proof (induction ps arbitrary: st)
  case Nil
  then show ?case by (simp add: extends_refl)
next
  case (Cons p ps)
  then show ?case
    by (auto split: sum.splits dest: render_part_extends intro: extends_trans)
qed

lemma render_message_cases:
  assumes "render_message tok sp i m st = Inr st'"
  obtains
    (user) c where "role m = ''user''" "i mod 2 = 0" "content m = Str c"
      "st' = add_tokens (One (user_end sp)) 0
               (add_tokens (Many (encode_str tok c)) 0
                 (add_tokens (One (user_start sp)) 0 st))"
  | (assistant_str) c where "role m = ''assistant''" "i mod 2 \<noteq> 0" "content m = Str c"
      "st' = add_tokens (One (assistant_end sp)) 1
               (add_tokens (Many (encode_str tok c)) 1
                 (add_tokens (One (assistant_start sp)) 0 st))"
  | (assistant_parts) ps st2 where "role m = ''assistant''" "i mod 2 \<noteq> 0"
      "content m = Parts ps"
      "render_parts tok sp ps (add_tokens (One (assistant_start sp)) 0 st) = Inr st2"
      "st' = add_tokens (One (assistant_end sp)) 1 st2"
proof (cases "i mod 2 = 0")
  case True
  with assms have r: "role m = ''user''"
    unfolding render_message_def must_be_from_def by (simp split: if_splits)
  with assms True obtain c where "content m = Str c"
    unfolding render_message_def must_be_from_def by (cases "content m") simp_all
  with assms True r show ?thesis
    unfolding render_message_def must_be_from_def by (intro user [of c]) auto
next
  case False
  with assms have r: "role m = ''assistant''"
    unfolding render_message_def must_be_from_def by (simp split: if_splits)
  show ?thesis
  proof (cases "content m")
    case (Str c)
    with assms False r show ?thesis
      unfolding render_message_def must_be_from_def
      by (intro assistant_str [of c]) auto
  next
    case (Parts ps)
    with assms False r obtain st2 where
      "render_parts tok sp ps (add_tokens (One (assistant_start sp)) 0 st) = Inr st2"
      "st' = add_tokens (One (assistant_end sp)) 1 st2"
      unfolding render_message_def must_be_from_def
      by (cases "render_parts tok sp ps (add_tokens (One (assistant_start sp)) 0 st)")
         auto
    with False r Parts show ?thesis by (intro assistant_parts [of ps st2]) auto
  next
    case Other
    with assms False r show ?thesis
      unfolding render_message_def must_be_from_def by simp
  qed
qed

lemma render_message_extends:
  assumes "render_message tok sp i m st = Inr st'"
  shows "extends st st'"
  using assms
proof (cases rule: render_message_cases)
  case (user c)
  then show ?thesis by (simp add: add_tokens_extends_step extends_refl)
next
  case (assistant_str c)
  then show ?thesis by (simp add: add_tokens_extends_step extends_refl)
next
  case (assistant_parts ps st2)
  have "extends st (add_tokens (One (assistant_start sp)) 0 st)"
    by (simp add: add_tokens_extends)
  with render_parts_extends [OF assistant_parts(4)] have "extends st st2"
    by (blast intro: extends_trans)
  then show ?thesis
    unfolding assistant_parts(5) by (simp add: add_tokens_extends_step)
qed

lemma render_messages_extends:
  "render_messages tok sp i ms st = Inr st' \<Longrightarrow> extends st st'"
proof (induction ms arbitrary: i st)
  case Nil
  then show ?case by (simp add: extends_refl)
next
  case (Cons m ms)
  then show ?case
    by (auto split: sum.splits dest: render_message_extends intro: extends_trans)
qed

lemma emit_conversation_shape:
  assumes "emit_conversation tok conv = Inr (ids, msk)"
  shows "\<exists>a b. ids = bos_token_id tok # a \<and> msk = 0 # b \<and> length a = length b
           \<and> set b \<subseteq> {0, 1}"
proof -
  from assms have
    "\<exists>msgs sp. render_messages tok sp 0 msgs ([bos_token_id tok], [0]) = Inr (ids, msk)"
    by (auto simp: emit_conversation_def get_bos_token_id_def add_tokens_def
             split: sum.splits if_splits)
  then obtain msgs sp where
    r: "render_messages tok sp 0 msgs ([bos_token_id tok], [0]) = Inr (ids, msk)"
    by blast
  from render_messages_extends [OF r] show ?thesis
    by (auto simp: extends_def)
qed

lemma length_py_slice_to_eq:
  "length xs = length ys \<Longrightarrow> length (py_slice_to xs n) = length (py_slice_to ys n)"
  by (simp add: py_slice_to_def)

lemma length_py_slice_to_le:
  "0 \<le> n \<Longrightarrow> int (length (py_slice_to xs n)) \<le> n"
  by (simp add: py_slice_to_def)

lemma set_py_slice_to: "set (py_slice_to xs n) \<subseteq> set xs"
  by (auto simp: py_slice_to_def dest: in_set_takeD)

lemma py_slice_to_Cons:
  "1 \<le> n \<Longrightarrow> \<exists>ys. py_slice_to (x # xs) n = x # ys"
  by (cases "nat n") (auto simp: py_slice_to_def)

section \<open>C1: the output guarantee\<close>

text \<open>
  C1. Whenever \<^verbatim>\<open>render_conversation\<close> returns a pair for a conversation and a
  maximum-length bound \<open>L\<close> (a length, \<open>L \<ge> 0\<close>), ids and mask have the same length,
  that length is at most \<open>L\<close>, every mask value is 0 or 1, and for \<open>L \<ge> 1\<close> position 0
  holds the BOS id with mask 0. The equal lengths and the mask values are proved
  for any integer passed as the bound.
\<close>

theorem render_conversation_output_guarantee:
  assumes "render_conversation tok conv L = Inr (ids, msk)"
  shows "length ids = length msk \<and> set msk \<subseteq> {0, 1}
       \<and> (0 \<le> L \<longrightarrow> int (length ids) \<le> L)
       \<and> (1 \<le> L \<longrightarrow> ids \<noteq> [] \<and> ids ! 0 = bos_token_id tok \<and> msk ! 0 = 0)"
proof -
  from assms obtain fids fmsk where
    e: "emit_conversation tok conv = Inr (fids, fmsk)" and
    ids: "ids = py_slice_to fids L" and msk: "msk = py_slice_to fmsk L"
    by (auto simp: render_conversation_def split: sum.splits)
  from emit_conversation_shape [OF e] obtain a b where
    sh: "fids = bos_token_id tok # a" "fmsk = 0 # b" "length a = length b"
        "set b \<subseteq> {0, 1}"
    by blast
  have 1: "length ids = length msk"
    unfolding ids msk using sh by (intro length_py_slice_to_eq) simp
  have 2: "set msk \<subseteq> {0, 1}"
    using set_py_slice_to [of fmsk L] sh unfolding msk by auto
  have 3: "0 \<le> L \<longrightarrow> int (length ids) \<le> L"
    unfolding ids by (simp add: length_py_slice_to_le)
  have 4: "1 \<le> L \<longrightarrow> ids \<noteq> [] \<and> ids ! 0 = bos_token_id tok \<and> msk ! 0 = 0"
  proof
    assume L: "1 \<le> L"
    from py_slice_to_Cons [OF L, of "bos_token_id tok" a] obtain ys where
      "ids = bos_token_id tok # ys" unfolding ids sh by blast
    moreover from py_slice_to_Cons [OF L, of "0::int" b] obtain zs where
      "msk = 0 # zs" unfolding msk sh by blast
    ultimately show "ids \<noteq> [] \<and> ids ! 0 = bos_token_id tok \<and> msk ! 0 = 0" by simp
  qed
  from 1 2 3 4 show ?thesis by blast
qed

theorem render_conversation_output_guarantee_witness:
  "render_conversation byte_tokenizer
     \<lparr>messages = [\<lparr>role = ''user'', content = Str ''hi''\<rparr>]\<rparr> 3
     = Inr ([256, 257, 104], [0, 0, 0])
   \<and> length [256, 257, 104 :: int] = length [0, 0, 0 :: int]
   \<and> set [0, 0, 0 :: int] \<subseteq> {0, 1}
   \<and> int (length [256, 257, 104 :: int]) \<le> 3
   \<and> [256, 257, 104] ! 0 = bos_token_id byte_tokenizer
   \<and> [0, 0, 0 :: int] ! 0 = 0"
proof -
  have h: "render_conversation byte_tokenizer
     \<lparr>messages = [\<lparr>role = ''user'', content = Str ''hi''\<rparr>]\<rparr> 3
     = Inr ([256, 257, 104], [0, 0, 0])"
    by code_simp
  show ?thesis
    using h render_conversation_output_guarantee [OF h] by simp
qed

section \<open>C4: truncation keeps a prefix of the natural rendering\<close>

lemma py_slice_to_all: "int (length xs) \<le> n \<Longrightarrow> py_slice_to xs n = xs"
  by (simp add: py_slice_to_def)

lemma emit_conversation_lengths:
  "emit_conversation tok conv = Inr (ids, msk) \<Longrightarrow> length ids = length msk"
  by (drule emit_conversation_shape) auto

text \<open>
  C4. Let \<open>N\<close> be the natural length of a conversation, the length of what the
  renderer has emitted before it truncates. Rendering with any bound \<open>M \<ge> N\<close>
  returns the full emission, and rendering with a bound \<open>L < N\<close> returns the slices
  \<^verbatim>\<open>natural_ids[:L]\<close> and \<^verbatim>\<open>natural_mask[:L]\<close> of it, which for \<open>L \<ge> 0\<close> are exactly
  its first \<open>L\<close> elements. The truncation reads nothing but the emitted lists and
  \<open>L\<close>: it knows no turns.
\<close>

theorem truncation_is_prefix_of_natural:
  assumes "emit_conversation tok conv = Inr (fids, fmsk)"
    and "L < int (length fids)" and "int (length fids) \<le> M"
  shows "\<exists>nids nmsk.
           render_conversation tok conv M = Inr (nids, nmsk)
         \<and> nids = fids \<and> nmsk = fmsk
         \<and> render_conversation tok conv L = Inr (py_slice_to nids L, py_slice_to nmsk L)
         \<and> (0 \<le> L \<longrightarrow>
              py_slice_to nids L = take (nat L) nids
            \<and> py_slice_to nmsk L = take (nat L) nmsk
            \<and> int (length (take (nat L) nids)) = L
            \<and> int (length (take (nat L) nmsk)) = L)"
proof -
  have len: "length fids = length fmsk"
    using assms(1) by (rule emit_conversation_lengths)
  have M: "render_conversation tok conv M = Inr (fids, fmsk)"
    using assms(1,3) len by (simp add: render_conversation_def py_slice_to_all)
  have L: "render_conversation tok conv L = Inr (py_slice_to fids L, py_slice_to fmsk L)"
    using assms(1) by (simp add: render_conversation_def)
  have pos: "0 \<le> L \<longrightarrow>
              py_slice_to fids L = take (nat L) fids
            \<and> py_slice_to fmsk L = take (nat L) fmsk
            \<and> int (length (take (nat L) fids)) = L
            \<and> int (length (take (nat L) fmsk)) = L"
    using assms(2) len by (auto simp: py_slice_to_def)
  from M L pos show ?thesis by blast
qed

theorem truncation_is_prefix_of_natural_witness:
  "emit_conversation byte_tokenizer
     \<lparr>messages = [\<lparr>role = ''user'', content = Str ''hi''\<rparr>,
                  \<lparr>role = ''assistant'', content = Str ''yo''\<rparr>]\<rparr>
     = Inr ([256, 257, 104, 105, 258, 259, 121, 111, 260], [0, 0, 0, 0, 0, 0, 1, 1, 1])
   \<and> render_conversation byte_tokenizer
     \<lparr>messages = [\<lparr>role = ''user'', content = Str ''hi''\<rparr>,
                  \<lparr>role = ''assistant'', content = Str ''yo''\<rparr>]\<rparr> 2048
     = Inr ([256, 257, 104, 105, 258, 259, 121, 111, 260], [0, 0, 0, 0, 0, 0, 1, 1, 1])
   \<and> render_conversation byte_tokenizer
     \<lparr>messages = [\<lparr>role = ''user'', content = Str ''hi''\<rparr>,
                  \<lparr>role = ''assistant'', content = Str ''yo''\<rparr>]\<rparr> 7
     = Inr ([256, 257, 104, 105, 258, 259, 121], [0, 0, 0, 0, 0, 0, 1])"
proof -
  let ?c = "\<lparr>messages = [\<lparr>role = ''user'', content = Str ''hi''\<rparr>,
                  \<lparr>role = ''assistant'', content = Str ''yo''\<rparr>]\<rparr>"
  have e: "emit_conversation byte_tokenizer ?c
     = Inr ([256, 257, 104, 105, 258, 259, 121, 111, 260], [0, 0, 0, 0, 0, 0, 1, 1, 1])"
    by code_simp
  have l: "7 < int (length [256, 257, 104, 105, 258, 259, 121, 111, 260 :: int])" by simp
  have m: "int (length [256, 257, 104, 105, 258, 259, 121, 111, 260 :: int]) \<le> 2048" by simp
  show ?thesis
    using e truncation_is_prefix_of_natural [OF e l m] by (simp add: py_slice_to_def)
qed

section \<open>C5: the completion renderer\<close>

lemma fetch_specials_Inr:
  assumes "fetch_specials tok = Inr sp"
  shows "encode_special tok ''<|user_start|>'' = Inr (user_start sp)"
    and "encode_special tok ''<|user_end|>'' = Inr (user_end sp)"
    and "encode_special tok ''<|assistant_start|>'' = Inr (assistant_start sp)"
    and "encode_special tok ''<|assistant_end|>'' = Inr (assistant_end sp)"
    and "encode_special tok ''<|python_start|>'' = Inr (python_start sp)"
    and "encode_special tok ''<|python_end|>'' = Inr (python_end sp)"
    and "encode_special tok ''<|output_start|>'' = Inr (output_start sp)"
    and "encode_special tok ''<|output_end|>'' = Inr (output_end sp)"
  using assms unfolding fetch_specials_def
  by (auto split: sum.splits)

lemma emit_conversation_specials:
  assumes "emit_conversation tok conv = Inr r"
  shows "\<exists>sp. fetch_specials tok = Inr sp"
  using assms unfolding emit_conversation_def
  by (auto split: sum.splits if_splits)

lemma render_conversation_emit:
  assumes "render_conversation tok conv L = Inr r"
  shows "\<exists>fids fmsk. emit_conversation tok conv = Inr (fids, fmsk)
           \<and> r = (py_slice_to fids L, py_slice_to fmsk L)"
  using assms unfolding render_conversation_def
  by (auto split: sum.splits)

lemma render_conversation_empty:
  "messages conv = [] \<Longrightarrow> render_conversation tok conv L = Inl IndexError"
  by (simp add: render_conversation_def emit_conversation_def merge_system_def)

text \<open>
  C5. For a conversation whose final message has role assistant,
  \<^verbatim>\<open>render_for_completion\<close> returns the ids that \<^verbatim>\<open>render_conversation\<close> (with its
  default bound) returns for the conversation without that message, followed by the
  assistant-start id, and fails as the renderer fails; the result is the same
  whatever the content of the removed message, so no id of the result derives from
  it. It fails when the final message is not from the assistant and when removing
  the final message leaves no message.
\<close>

theorem render_for_completion_spec:
  "(messages conv \<noteq> [] \<and> role (last (messages conv)) = ''assistant'' \<longrightarrow>
      (\<forall>ids msk.
         render_conversation tok (conv\<lparr>messages := butlast (messages conv)\<rparr>)
           default_max_tokens = Inr (ids, msk) \<longrightarrow>
         (\<exists>a. encode_special tok ''<|assistant_start|>'' = Inr a
            \<and> render_for_completion tok conv = Inr (ids @ [a])))
    \<and> (\<forall>e.
         render_conversation tok (conv\<lparr>messages := butlast (messages conv)\<rparr>)
           default_max_tokens = Inl e \<longrightarrow>
         render_for_completion tok conv = Inl e)
    \<and> (\<forall>c. render_for_completion tok
              (conv\<lparr>messages := butlast (messages conv)
                        @ [\<lparr>role = ''assistant'', content = c\<rparr>]\<rparr>)
            = render_for_completion tok conv))
 \<and> (messages conv \<noteq> [] \<and> role (last (messages conv)) \<noteq> ''assistant'' \<longrightarrow>
      render_for_completion tok conv = Inl AssertionError)
 \<and> (butlast (messages conv) = [] \<longrightarrow> (\<exists>e. render_for_completion tok conv = Inl e))"
proof (intro conjI impI allI)
  fix ids msk
  assume "messages conv \<noteq> [] \<and> role (last (messages conv)) = ''assistant''"
    and r: "render_conversation tok (conv\<lparr>messages := butlast (messages conv)\<rparr>)
              default_max_tokens = Inr (ids, msk)"
  moreover from r obtain sp where "fetch_specials tok = Inr sp"
    by (blast dest: render_conversation_emit emit_conversation_specials)
  then have "encode_special tok ''<|assistant_start|>'' = Inr (assistant_start sp)"
    by (rule fetch_specials_Inr)
  ultimately show "\<exists>a. encode_special tok ''<|assistant_start|>'' = Inr a
            \<and> render_for_completion tok conv = Inr (ids @ [a])"
    by (simp add: render_for_completion_def)
next
  fix e
  assume "messages conv \<noteq> [] \<and> role (last (messages conv)) = ''assistant''"
    and "render_conversation tok (conv\<lparr>messages := butlast (messages conv)\<rparr>)
              default_max_tokens = Inl e"
  then show "render_for_completion tok conv = Inl e"
    by (simp add: render_for_completion_def)
next
  fix c
  assume "messages conv \<noteq> [] \<and> role (last (messages conv)) = ''assistant''"
  then show "render_for_completion tok
              (conv\<lparr>messages := butlast (messages conv)
                        @ [\<lparr>role = ''assistant'', content = c\<rparr>]\<rparr>)
            = render_for_completion tok conv"
    by (simp add: render_for_completion_def)
next
  assume "messages conv \<noteq> [] \<and> role (last (messages conv)) \<noteq> ''assistant''"
  then show "render_for_completion tok conv = Inl AssertionError"
    by (simp add: render_for_completion_def)
next
  assume b: "butlast (messages conv) = []"
  have "render_conversation tok (conv\<lparr>messages := butlast (messages conv)\<rparr>)
          default_max_tokens = Inl IndexError"
    using b by (simp add: render_conversation_empty)
  then show "\<exists>e. render_for_completion tok conv = Inl e"
    by (simp add: render_for_completion_def)
qed

theorem render_for_completion_spec_witness:
  "render_conversation byte_tokenizer \<lparr>messages = [\<lparr>role = ''user'', content = Str ''Q''\<rparr>]\<rparr>
     default_max_tokens = Inr ([256, 257, 81, 258], [0, 0, 0, 0])
   \<and> render_for_completion byte_tokenizer
       \<lparr>messages = [\<lparr>role = ''user'', content = Str ''Q''\<rparr>,
                    \<lparr>role = ''assistant'', content = Str ''A''\<rparr>]\<rparr>
     = Inr ([256, 257, 81, 258] @ [259])
   \<and> render_for_completion byte_tokenizer
       \<lparr>messages = [\<lparr>role = ''user'', content = Str ''Q''\<rparr>,
                    \<lparr>role = ''assistant'', content = Str ''another answer''\<rparr>]\<rparr>
     = Inr [256, 257, 81, 258, 259]
   \<and> render_for_completion byte_tokenizer
       \<lparr>messages = [\<lparr>role = ''user'', content = Str ''Q''\<rparr>]\<rparr> = Inl AssertionError
   \<and> render_for_completion byte_tokenizer
       \<lparr>messages = [\<lparr>role = ''assistant'', content = Str ''A''\<rparr>]\<rparr> = Inl IndexError"
proof -
  let ?q = "\<lparr>role = ''user'', content = Str ''Q''\<rparr>"
  let ?a = "\<lparr>role = ''assistant'', content = Str ''A''\<rparr>"
  let ?c = "\<lparr>messages = [?q, ?a]\<rparr>"
  have r: "render_conversation byte_tokenizer \<lparr>messages = [?q]\<rparr> default_max_tokens
             = Inr ([256, 257, 81, 258], [0, 0, 0, 0])"
    by code_simp
  have s: "encode_special byte_tokenizer ''<|assistant_start|>'' = Inr 259"
    by code_simp
  have i: "render_for_completion byte_tokenizer \<lparr>messages = [?a]\<rparr> = Inl IndexError"
    by code_simp
  show ?thesis
    using r s i
      render_for_completion_spec [of ?c byte_tokenizer]
      render_for_completion_spec [of "\<lparr>messages = [?q]\<rparr>" byte_tokenizer]
    by auto
qed

section \<open>C9: the completion renderer under the default bound\<close>

lemma byte_tokenizer_specials:
  "fetch_specials byte_tokenizer =
     Inr \<lparr>user_start = 257, user_end = 258, assistant_start = 259, assistant_end = 260,
          python_start = 261, python_end = 262, output_start = 263, output_end = 264\<rparr>"
  by code_simp

lemma render_for_completion_truncated_example:
  "render_for_completion byte_tokenizer
     \<lparr>messages = [\<lparr>role = ''user'', content = Str (replicate 3000 (CHR ''a''))\<rparr>,
                  \<lparr>role = ''assistant'', content = Str ''A''\<rparr>]\<rparr>
     = Inr (256 # 257 # replicate 2046 97 @ [259])"
proof -
  have s: "encode_special byte_tokenizer ''<|assistant_start|>'' = Inr 259"
    by code_simp
  have e: "encode_str byte_tokenizer (replicate 3000 (CHR ''a'')) = replicate 3000 97"
    by (simp add: encode_str_def byte_tokenizer_def byte_encoding_def)
  have m: "merge_system \<lparr>messages = [\<lparr>role = ''user'', content = Str (replicate 3000 (CHR ''a''))\<rparr>]\<rparr>
     = Inr [\<lparr>role = ''user'', content = Str (replicate 3000 (CHR ''a''))\<rparr>]"
    by (simp add: merge_system_def)
  have b: "get_bos_token_id byte_tokenizer = 256"
    by (simp add: get_bos_token_id_def byte_tokenizer_def)
  have em: "emit_conversation byte_tokenizer
     \<lparr>messages = [\<lparr>role = ''user'', content = Str (replicate 3000 (CHR ''a''))\<rparr>]\<rparr>
     = Inr (256 # 257 # replicate 3000 97 @ [258], 0 # 0 # replicate 3001 0)"
    unfolding emit_conversation_def m byte_tokenizer_specials
    by (simp add: b e render_message_def must_be_from_def add_tokens_def
        replicate_append_same flip: replicate_add)
  have "render_conversation byte_tokenizer
     \<lparr>messages = [\<lparr>role = ''user'', content = Str (replicate 3000 (CHR ''a''))\<rparr>]\<rparr>
       default_max_tokens
     = Inr (256 # 257 # replicate 2046 97, 0 # 0 # replicate 2046 0)"
    unfolding render_conversation_def em
    by (simp add: py_slice_to_def default_max_tokens_def)
  then show ?thesis
    by (simp add: render_for_completion_def s)
qed

text \<open>
  C9. \<^verbatim>\<open>render_for_completion\<close> renders with the default bound of 2048 and appends the
  assistant-start id afterwards: whenever it returns, the result has at most 2049
  ids, its last id is the assistant-start id, and the ids before it are the first
  2048 of the full emission of the remaining conversation, truncated or not.
\<close>

theorem render_for_completion_bounded:
  assumes "render_for_completion tok conv = Inr ids"
  shows "length ids \<le> 2049 \<and> ids \<noteq> []
       \<and> encode_special tok ''<|assistant_start|>'' = Inr (last ids)
       \<and> (\<exists>fids fmsk.
             emit_conversation tok (conv\<lparr>messages := butlast (messages conv)\<rparr>)
               = Inr (fids, fmsk)
           \<and> butlast ids = take 2048 fids)"
proof -
  let ?c = "conv\<lparr>messages := butlast (messages conv)\<rparr>"
  from assms have "\<exists>rids rmsk a.
      render_conversation tok ?c default_max_tokens = Inr (rids, rmsk)
    \<and> encode_special tok ''<|assistant_start|>'' = Inr a \<and> ids = rids @ [a]"
    unfolding render_for_completion_def
    by (auto split: if_splits sum.splits)
  then obtain rids rmsk a where
    r: "render_conversation tok ?c default_max_tokens = Inr (rids, rmsk)" and
    a: "encode_special tok ''<|assistant_start|>'' = Inr a" and
    ids: "ids = rids @ [a]"
    by blast
  from render_conversation_emit [OF r] obtain fids fmsk where
    e: "emit_conversation tok ?c = Inr (fids, fmsk)" and
    rids: "rids = py_slice_to fids default_max_tokens"
    by auto
  have t: "rids = take 2048 fids"
    unfolding rids by (simp add: py_slice_to_def default_max_tokens_def)
  then have "length rids \<le> 2048" by simp
  with ids a e t show ?thesis by auto
qed

text \<open>A remaining conversation of 3003 tokens: 2048 of them are kept, then the id 259.\<close>

theorem render_for_completion_bounded_witness:
  "render_for_completion byte_tokenizer
     \<lparr>messages = [\<lparr>role = ''user'', content = Str (replicate 3000 (CHR ''a''))\<rparr>,
                  \<lparr>role = ''assistant'', content = Str ''A''\<rparr>]\<rparr>
     = Inr (256 # 257 # replicate 2046 97 @ [259])
   \<and> length (256 # 257 # replicate 2046 97 @ [259 :: int]) \<le> 2049
   \<and> encode_special byte_tokenizer ''<|assistant_start|>''
       = Inr (last (256 # 257 # replicate 2046 97 @ [259]))"
proof -
  have h: "render_for_completion byte_tokenizer
     \<lparr>messages = [\<lparr>role = ''user'', content = Str (replicate 3000 (CHR ''a''))\<rparr>,
                  \<lparr>role = ''assistant'', content = Str ''A''\<rparr>]\<rparr>
     = Inr (256 # 257 # replicate 2046 97 @ [259])"
    by (rule render_for_completion_truncated_example)
  show ?thesis
    using h render_for_completion_bounded [OF h] by simp
qed

section \<open>C3: the system-message merge\<close>

lemma merge_system_shared_value:
  assumes "second_not_shared sc"
  shows "(case merge_system_shared sc of Inl e \<Rightarrow> Inl e | Inr sc' \<Rightarrow> Inr (messages_of sc'))
       = merge_system \<lparr>messages = messages_of sc\<rparr>"
proof (cases "message_refs sc")
  case Nil
  then show ?thesis
    by (simp add: merge_system_shared_def merge_system_def messages_of_def)
next
  case (Cons r0 rest)
  show ?thesis
  proof (cases "role (objects sc r0) = ''system''")
    case False
    with Cons show ?thesis
      by (simp add: merge_system_shared_def merge_system_def messages_of_def)
  next
    case True
    show ?thesis
    proof (cases rest)
      case Nil
      with Cons True show ?thesis
        by (simp add: merge_system_shared_def merge_system_def messages_of_def)
    next
      case (Cons r1 rest')
      with \<open>message_refs sc = r0 # rest\<close> True assms have "r1 \<notin> set rest'"
        by (simp add: second_not_shared_def)
      with Cons \<open>message_refs sc = r0 # rest\<close> True show ?thesis
        by (simp add: merge_system_shared_def merge_system_def messages_of_def
            split: sum.splits)
    qed
  qed
qed

lemma render_conversation_shared_value:
  assumes "second_not_shared sc"
  shows "render_conversation_shared tok sc L
       = render_conversation tok \<lparr>messages = messages_of sc\<rparr> L"
proof -
  have "emit_conversation_shared tok sc = emit_conversation tok \<lparr>messages = messages_of sc\<rparr>"
    unfolding emit_conversation_shared_def emit_conversation_def
      merge_system_shared_value [OF assms, symmetric]
    by (cases "merge_system_shared sc") simp_all
  then show ?thesis
    by (simp add: render_conversation_shared_def render_conversation_def)
qed

lemma system_merge_equivalence_by_value:
  assumes "role m0 = ''system''" and "role m1 = ''user''"
    and "py_add (content m0) (Str [CHR 0x0A, CHR 0x0A]) = Inr c0"
    and "py_add c0 (content m1) = Inr c"
  shows "render_conversation tok (conv\<lparr>messages := m0 # m1 # rest\<rparr>) L
       = render_conversation tok (conv\<lparr>messages := m1\<lparr>content := c\<rparr> # rest\<rparr>) L"
proof -
  have "merge_system (conv\<lparr>messages := m0 # m1 # rest\<rparr>) = Inr (m1\<lparr>content := c\<rparr> # rest)"
    using assms by (simp add: merge_system_def)
  moreover have "merge_system (conv\<lparr>messages := m1\<lparr>content := c\<rparr> # rest\<rparr>)
      = Inr (m1\<lparr>content := c\<rparr> # rest)"
    using assms by (simp add: merge_system_def)
  ultimately show ?thesis
    by (simp add: render_conversation_def emit_conversation_def)
qed

text \<open>
  Where the sentence of C3 holds: when the object of the second message sits at no
  later position, the rendering is that of the conversation without the system
  message whose first user message has the concatenated content.
\<close>

lemma system_merge_equivalence_unshared:
  assumes "role (ob r0) = ''system''" and "role (ob r1) = ''user''"
    and "py_add (content (ob r0)) (Str [CHR 0x0A, CHR 0x0A]) = Inr c0"
    and "py_add c0 (content (ob r1)) = Inr c"
    and "r1 \<notin> set rest"
  shows "render_conversation_shared tok \<lparr>objects = ob, message_refs = r0 # r1 # rest\<rparr> L
       = render_conversation tok \<lparr>messages = (ob r1)\<lparr>content := c\<rparr> # map ob rest\<rparr> L"
proof -
  have "second_not_shared \<lparr>objects = ob, message_refs = r0 # r1 # rest\<rparr>"
    using assms(5) by (simp add: second_not_shared_def)
  from render_conversation_shared_value [OF this, of tok L]
  have "render_conversation_shared tok \<lparr>objects = ob, message_refs = r0 # r1 # rest\<rparr> L
      = render_conversation tok \<lparr>messages = ob r0 # ob r1 # map ob rest\<rparr> L"
    by (simp add: messages_of_def)
  also have "\<dots> = render_conversation tok \<lparr>messages = (ob r1)\<lparr>content := c\<rparr> # map ob rest\<rparr> L"
    using system_merge_equivalence_by_value [OF assms(1-4), where tok = tok
        and conv = "\<lparr>messages = []\<rparr>" and rest = "map ob rest" and L = L]
    by simp
  finally show ?thesis .
qed

text \<open>
  C3 at the conversation \<^verbatim>\<open>[s, u, a, u]\<close> whose second and fourth message are one dict
  \<^verbatim>\<open>u\<close>: the renderer assigns the concatenated content to that dict, so both user
  turns are rendered with it (16 tokens), while the conversation of the claim,
  without the system message and with the first user message's content replaced,
  renders its last user turn as \<^verbatim>\<open>U\<close> (13 tokens).
\<close>

theorem system_merge_shared_object_divergence:
  "render_conversation_shared byte_tokenizer
     \<lparr>objects = shared_example_objects, message_refs = [0, 1, 2, 1]\<rparr> 2048
   = Inr ([256, 257, 83, 10, 10, 85, 258, 259, 65, 260, 257, 83, 10, 10, 85, 258],
          [0, 0, 0, 0, 0, 0, 0, 0, 1, 1, 0, 0, 0, 0, 0, 0])
   \<and> render_conversation_shared byte_tokenizer
     \<lparr>objects = merged_example_objects, message_refs = [0, 1, 2]\<rparr> 2048
   = Inr ([256, 257, 83, 10, 10, 85, 258, 259, 65, 260, 257, 85, 258],
          [0, 0, 0, 0, 0, 0, 0, 0, 1, 1, 0, 0, 0])"
proof -
  have 1: "render_conversation_shared byte_tokenizer
     \<lparr>objects = shared_example_objects, message_refs = [0, 1, 2, 1]\<rparr> 2048
   = Inr ([256, 257, 83, 10, 10, 85, 258, 259, 65, 260, 257, 83, 10, 10, 85, 258],
          [0, 0, 0, 0, 0, 0, 0, 0, 1, 1, 0, 0, 0, 0, 0, 0])"
    by code_simp
  have 2: "render_conversation_shared byte_tokenizer
     \<lparr>objects = merged_example_objects, message_refs = [0, 1, 2]\<rparr> 2048
   = Inr ([256, 257, 83, 10, 10, 85, 258, 259, 65, 260, 257, 85, 258],
          [0, 0, 0, 0, 0, 0, 0, 0, 1, 1, 0, 0, 0])"
    by code_simp
  from 1 2 show ?thesis by (intro conjI)
qed

section \<open>C8: the batch encode facade\<close>

lemma encode_plain:
  "encode tok (Text s) None None = Inr (Ids (encode_str tok s))"
  by (simp add: encode_def resolve_ref_def insert_front_def append_back_def encode_str_def)

lemma resolve_ref_Inr:
  assumes "resolve_ref tok r = Inr p"
  shows "(r = None \<longrightarrow> p = None)
       \<and> (\<forall>i. r = Some (TokenId i) \<longrightarrow> p = Some i)
       \<and> (\<forall>n. r = Some (TokenName n) \<longrightarrow> (\<exists>i. p = Some i \<and> encode_special tok n = Inr i))"
  using assms unfolding resolve_ref_def
  by (auto split: option.splits token_ref.splits sum.splits)

lemma wrap_ids:
  "append_back a (insert_front p xs)
     = (case p of None \<Rightarrow> [] | Some i \<Rightarrow> [i]) @ xs @ (case a of None \<Rightarrow> [] | Some j \<Rightarrow> [j])"
  by (simp add: append_back_def insert_front_def split: option.splits)

text \<open>
  C8. When prepend and append resolve (None stays None, an int is taken as it is, a
  reserved name is looked up), \<^verbatim>\<open>encode\<close> of a single string is the ordinary
  encoding with the prepend id in front and the append id at the end; \<^verbatim>\<open>encode\<close> of
  a list of strings returns one row per input, in order, each row the same as
  encoding that string alone with the same prepend and append; and \<^verbatim>\<open>encode\<close> of any
  other input raises (the source raises \<^verbatim>\<open>ValueError("Invalid input type")\<close>). Any
  other input raises whatever prepend and append are.
\<close>

theorem encode_facade:
  "(resolve_ref tok prepend_arg = Inr p \<and> resolve_ref tok append_arg = Inr a \<longrightarrow>
      (prepend_arg = None \<longrightarrow> p = None)
    \<and> (\<forall>i. prepend_arg = Some (TokenId i) \<longrightarrow> p = Some i)
    \<and> (\<forall>n. prepend_arg = Some (TokenName n) \<longrightarrow>
          (\<exists>i. p = Some i \<and> encode_special tok n = Inr i))
    \<and> (append_arg = None \<longrightarrow> a = None)
    \<and> (\<forall>i. append_arg = Some (TokenId i) \<longrightarrow> a = Some i)
    \<and> (\<forall>n. append_arg = Some (TokenName n) \<longrightarrow>
          (\<exists>i. a = Some i \<and> encode_special tok n = Inr i))
    \<and> encode tok (Text s) prepend_arg append_arg
        = Inr (Ids ((case p of None \<Rightarrow> [] | Some i \<Rightarrow> [i])
                    @ encode_ordinary (enc tok) s
                    @ (case a of None \<Rightarrow> [] | Some j \<Rightarrow> [j])))
    \<and> (\<exists>rows. encode tok (TextList ts) prepend_arg append_arg = Inr (IdsBatch rows)
          \<and> length rows = length ts
          \<and> (\<forall>k<length ts.
                rows ! k = (case p of None \<Rightarrow> [] | Some i \<Rightarrow> [i])
                           @ encode_ordinary (enc tok) (ts ! k)
                           @ (case a of None \<Rightarrow> [] | Some j \<Rightarrow> [j])
              \<and> encode tok (Text (ts ! k)) prepend_arg append_arg = Inr (Ids (rows ! k))))
    \<and> encode tok OtherInput prepend_arg append_arg = Inl ValueError)
 \<and> (\<exists>e. encode tok OtherInput prepend_arg append_arg = Inl e)"
proof (intro conjI impI)
  show "\<exists>e. encode tok OtherInput prepend_arg append_arg = Inl e"
    by (auto simp: encode_def split: sum.splits)
next
  assume h: "resolve_ref tok prepend_arg = Inr p \<and> resolve_ref tok append_arg = Inr a"
  show "encode tok (Text s) prepend_arg append_arg
        = Inr (Ids ((case p of None \<Rightarrow> [] | Some i \<Rightarrow> [i])
                    @ encode_ordinary (enc tok) s
                    @ (case a of None \<Rightarrow> [] | Some j \<Rightarrow> [j])))"
    using h by (simp add: encode_def wrap_ids)
  show "encode tok OtherInput prepend_arg append_arg = Inl ValueError"
    using h by (simp add: encode_def)
  let ?rows = "map (\<lambda>t. (case p of None \<Rightarrow> [] | Some i \<Rightarrow> [i])
                           @ encode_ordinary (enc tok) t
                           @ (case a of None \<Rightarrow> [] | Some j \<Rightarrow> [j])) ts"
  have "encode tok (TextList ts) prepend_arg append_arg = Inr (IdsBatch ?rows)"
    using h by (simp add: encode_def wrap_ids comp_def)
  moreover have "length ?rows = length ts" by simp
  moreover have "\<forall>k<length ts.
                ?rows ! k = (case p of None \<Rightarrow> [] | Some i \<Rightarrow> [i])
                           @ encode_ordinary (enc tok) (ts ! k)
                           @ (case a of None \<Rightarrow> [] | Some j \<Rightarrow> [j])
              \<and> encode tok (Text (ts ! k)) prepend_arg append_arg = Inr (Ids (?rows ! k))"
    using h by (simp add: encode_def wrap_ids)
  ultimately show "\<exists>rows. encode tok (TextList ts) prepend_arg append_arg = Inr (IdsBatch rows)
          \<and> length rows = length ts
          \<and> (\<forall>k<length ts.
                rows ! k = (case p of None \<Rightarrow> [] | Some i \<Rightarrow> [i])
                           @ encode_ordinary (enc tok) (ts ! k)
                           @ (case a of None \<Rightarrow> [] | Some j \<Rightarrow> [j])
              \<and> encode tok (Text (ts ! k)) prepend_arg append_arg = Inr (Ids (rows ! k)))"
    by blast
next
  assume h: "resolve_ref tok prepend_arg = Inr p \<and> resolve_ref tok append_arg = Inr a"
  assume "prepend_arg = None"
  with h show "p = None" by (simp add: resolve_ref_def)
next
  assume h: "resolve_ref tok prepend_arg = Inr p \<and> resolve_ref tok append_arg = Inr a"
  assume "append_arg = None"
  with h show "a = None" by (simp add: resolve_ref_def)
next
  assume h: "resolve_ref tok prepend_arg = Inr p \<and> resolve_ref tok append_arg = Inr a"
  then show "\<forall>i. prepend_arg = Some (TokenId i) \<longrightarrow> p = Some i"
    using resolve_ref_Inr [of tok prepend_arg p] by simp
next
  assume h: "resolve_ref tok prepend_arg = Inr p \<and> resolve_ref tok append_arg = Inr a"
  then show "\<forall>n. prepend_arg = Some (TokenName n) \<longrightarrow>
          (\<exists>i. p = Some i \<and> encode_special tok n = Inr i)"
    using resolve_ref_Inr [of tok prepend_arg p] by simp
next
  assume h: "resolve_ref tok prepend_arg = Inr p \<and> resolve_ref tok append_arg = Inr a"
  then show "\<forall>i. append_arg = Some (TokenId i) \<longrightarrow> a = Some i"
    using resolve_ref_Inr [of tok append_arg a] by simp
next
  assume h: "resolve_ref tok prepend_arg = Inr p \<and> resolve_ref tok append_arg = Inr a"
  then show "\<forall>n. append_arg = Some (TokenName n) \<longrightarrow>
          (\<exists>i. a = Some i \<and> encode_special tok n = Inr i)"
    using resolve_ref_Inr [of tok append_arg a] by simp
qed

theorem encode_facade_witness:
  "resolve_ref byte_tokenizer (Some (TokenName ''<|bos|>'')) = Inr (Some 256)
   \<and> resolve_ref byte_tokenizer (Some (TokenId 7)) = Inr (Some 7)
   \<and> encode byte_tokenizer (Text ''Hi'') (Some (TokenName ''<|bos|>'')) (Some (TokenId 7))
       = Inr (Ids [256, 72, 105, 7])
   \<and> encode byte_tokenizer (TextList [''Hi'', ''a'']) (Some (TokenName ''<|bos|>''))
         (Some (TokenId 7))
       = Inr (IdsBatch [[256, 72, 105, 7], [256, 97, 7]])
   \<and> encode byte_tokenizer OtherInput (Some (TokenName ''<|bos|>'')) (Some (TokenId 7))
       = Inl ValueError"
proof -
  have p: "resolve_ref byte_tokenizer (Some (TokenName ''<|bos|>'')) = Inr (Some 256)"
    by code_simp
  have a: "resolve_ref byte_tokenizer (Some (TokenId 7)) = Inr (Some 7)"
    by code_simp
  have b: "encode byte_tokenizer (TextList [''Hi'', ''a'']) (Some (TokenName ''<|bos|>''))
         (Some (TokenId 7))
       = Inr (IdsBatch [[256, 72, 105, 7], [256, 97, 7]])"
    by code_simp
  have e: "encode_ordinary (enc byte_tokenizer) ''Hi'' = [72, 105]"
    by code_simp
  note t = encode_facade [where tok = byte_tokenizer
        and prepend_arg = "Some (TokenName ''<|bos|>'')" and p = "Some 256"
        and append_arg = "Some (TokenId 7)" and a = "Some 7"
        and s = "''Hi''" and ts = "[''Hi'', ''a'']"]
  note c = t [THEN conjunct1, THEN mp, OF conjI [OF p a]]
  note r = c [THEN conjunct2, THEN conjunct2, THEN conjunct2, THEN conjunct2,
              THEN conjunct2, THEN conjunct2]
  have single: "encode byte_tokenizer (Text ''Hi'') (Some (TokenName ''<|bos|>''))
               (Some (TokenId 7)) = Inr (Ids [256, 72, 105, 7])"
    using r [THEN conjunct1] e by simp
  have oth: "encode byte_tokenizer OtherInput (Some (TokenName ''<|bos|>''))
               (Some (TokenId 7)) = Inl ValueError"
    using r [THEN conjunct2, THEN conjunct2] .
  from p a single b oth show ?thesis by (intro conjI)
qed

section \<open>Which message lists the loop accepts\<close>

lemma render_part_ok:
  "(\<exists>st'. render_part tok sp p st = Inr st') \<longleftrightarrow> known_part p"
  by (auto simp: render_part_def known_part_def Let_def)

lemma render_parts_ok:
  "(\<exists>st'. render_parts tok sp ps st = Inr st') \<longleftrightarrow> list_all known_part ps"
proof (induction ps arbitrary: st)
  case Nil
  show ?case by simp
next
  case (Cons p ps)
  show ?case
  proof (cases "render_part tok sp p st")
    case (Inl e)
    with render_part_ok [of tok sp p st] show ?thesis by simp
  next
    case (Inr st1)
    with render_part_ok [of tok sp p st] have "known_part p" by auto
    with Inr Cons.IH [of st1] show ?thesis by simp
  qed
qed

lemma must_be_from_cases:
  "must_be_from i = ''user'' \<or> must_be_from i = ''assistant''"
  by (simp add: must_be_from_def)

lemma render_message_ok:
  "(\<exists>st'. render_message tok sp i m st = Inr st')
     \<longleftrightarrow> role m = must_be_from i \<and> content_ok m"
proof (cases "role m = must_be_from i")
  case False
  then show ?thesis by (simp add: render_message_def)
next
  case True
  show ?thesis
  proof (cases "role m = ''user''")
    case u: True
    then have na: "role m \<noteq> ''assistant''" by simp
    from True u na show ?thesis
      by (cases "content m") (auto simp: render_message_def content_ok_def)
  next
    case nu: False
    with True must_be_from_cases [of i] have a: "role m = ''assistant''" by auto
    with True have mb: "must_be_from i = ''assistant''" by simp
    show ?thesis
    proof (cases "content m")
      case (Str c)
      then show ?thesis by (simp add: render_message_def content_ok_def mb a)
    next
      case (Parts ps)
      let ?st1 = "add_tokens (One (assistant_start sp)) 0 st"
      show ?thesis
      proof (cases "render_parts tok sp ps ?st1")
        case (Inl e)
        with render_parts_ok [of tok sp ps ?st1] have "\<not> list_all known_part ps" by simp
        then show ?thesis
          by (simp add: render_message_def content_ok_def mb a Parts Inl)
      next
        case (Inr st2)
        with render_parts_ok [of tok sp ps ?st1] have "list_all known_part ps" by auto
        then show ?thesis
          by (simp add: render_message_def content_ok_def mb a Parts Inr)
      qed
    next
      case Other
      then show ?thesis by (simp add: render_message_def content_ok_def mb a)
    qed
  qed
qed

lemma render_messages_ok:
  "(\<exists>st'. render_messages tok sp i ms st = Inr st')
     \<longleftrightarrow> (\<forall>k<length ms. role (ms ! k) = must_be_from (i + k) \<and> content_ok (ms ! k))"
proof (induction ms arbitrary: i st)
  case Nil
  show ?case by simp
next
  case (Cons m ms)
  have split: "(\<forall>k<length (m # ms).
                  role ((m # ms) ! k) = must_be_from (i + k) \<and> content_ok ((m # ms) ! k))
     \<longleftrightarrow> (role m = must_be_from i \<and> content_ok m)
        \<and> (\<forall>k<length ms. role (ms ! k) = must_be_from (Suc i + k) \<and> content_ok (ms ! k))"
    by (auto simp: less_Suc_eq_0_disj)
  show ?case
  proof (cases "render_message tok sp i m st")
    case (Inl e)
    with render_message_ok [of tok sp i m st]
    have "\<not> (role m = must_be_from i \<and> content_ok m)" by simp
    moreover from Inl have "\<not> (\<exists>st'. render_messages tok sp i (m # ms) st = Inr st')"
      by simp
    ultimately show ?thesis unfolding split by blast
  next
    case (Inr st1)
    with render_message_ok [of tok sp i m st]
    have "role m = must_be_from i \<and> content_ok m" by auto
    moreover from Inr have "(\<exists>st'. render_messages tok sp i (m # ms) st = Inr st')
        \<longleftrightarrow> (\<exists>st'. render_messages tok sp (Suc i) ms st1 = Inr st')"
      by simp
    ultimately show ?thesis unfolding split using Cons.IH [of "Suc i" st1] by blast
  qed
qed

lemma merge_system_plain:
  "messages conv \<noteq> [] \<Longrightarrow> role (hd (messages conv)) \<noteq> ''system''
     \<Longrightarrow> merge_system conv = Inr (messages conv)"
  by (cases "messages conv") (simp_all add: merge_system_def)

lemma emit_conversation_plain:
  assumes "fetch_specials tok = Inr sp" and "messages conv \<noteq> []"
    and "role (hd (messages conv)) \<noteq> ''system''"
  shows "emit_conversation tok conv
       = render_messages tok sp 0 (messages conv) ([bos_token_id tok], [0])"
  using assms
  by (cases "messages conv")
     (simp_all add: emit_conversation_def merge_system_plain get_bos_token_id_def
        add_tokens_def)

lemma replicate_zero_frame:
  "x # x # replicate n x @ [x] = replicate (n + 3) x"
  by (simp add: numeral_3_eq_3 replicate_append_same)

lemma render_conversation_Inr_iff:
  "(\<exists>r. render_conversation tok conv L = Inr r) \<longleftrightarrow> (\<exists>r. emit_conversation tok conv = Inr r)"
  by (auto simp: render_conversation_def split: sum.splits)

section \<open>C10: the role check looks at the parity of the index only\<close>

text \<open>
  C10. With the reserved names resolved, a conversation that does not start with a
  system message is rendered exactly when it is non-empty and every message at an
  even index is from the user and every message at an odd index from the assistant,
  each with a content the renderer takes; nothing asks for the last message to be
  from the assistant. In particular one user message with string content is
  rendered, as BOS, user-start, the encoded text and user-end (truncated to the
  bound), and every mask value of the result is 0.
\<close>

theorem role_alternation_only_parity:
  assumes "fetch_specials tok = Inr sp"
  shows "(msgs = [] \<or> role (hd msgs) \<noteq> ''system'' \<longrightarrow>
            ((\<exists>r. render_conversation tok \<lparr>messages = msgs\<rparr> L = Inr r)
               \<longleftrightarrow> msgs \<noteq> []
                 \<and> (\<forall>i<length msgs.
                       role (msgs ! i) = (if i mod 2 = 0 then ''user'' else ''assistant'')
                     \<and> content_ok (msgs ! i))))
       \<and> render_conversation tok \<lparr>messages = [\<lparr>role = ''user'', content = Str s\<rparr>]\<rparr> L
           = Inr (py_slice_to (bos_token_id tok # user_start sp # encode_ordinary (enc tok) s
                                @ [user_end sp]) L,
                  py_slice_to (replicate (length (encode_ordinary (enc tok) s) + 3) 0) L)
       \<and> (\<forall>ids msk.
            render_conversation tok \<lparr>messages = [\<lparr>role = ''user'', content = Str s\<rparr>]\<rparr> L
              = Inr (ids, msk) \<longrightarrow> (\<forall>v\<in>set msk. v = 0))"
proof -
  have 1: "msgs = [] \<or> role (hd msgs) \<noteq> ''system'' \<longrightarrow>
            ((\<exists>r. render_conversation tok \<lparr>messages = msgs\<rparr> L = Inr r)
               \<longleftrightarrow> msgs \<noteq> []
                 \<and> (\<forall>i<length msgs.
                       role (msgs ! i) = (if i mod 2 = 0 then ''user'' else ''assistant'')
                     \<and> content_ok (msgs ! i)))"
  proof (cases "msgs = []")
    case True
    then show ?thesis by (simp add: render_conversation_empty)
  next
    case False
    show ?thesis
    proof
      assume "msgs = [] \<or> role (hd msgs) \<noteq> ''system''"
      with False have ns: "role (hd msgs) \<noteq> ''system''" by simp
      have "emit_conversation tok \<lparr>messages = msgs\<rparr>
          = render_messages tok sp 0 msgs ([bos_token_id tok], [0])"
        using emit_conversation_plain [OF assms, of "\<lparr>messages = msgs\<rparr>"] False ns by simp
      then have "(\<exists>r. render_conversation tok \<lparr>messages = msgs\<rparr> L = Inr r)
          \<longleftrightarrow> (\<exists>r. render_messages tok sp 0 msgs ([bos_token_id tok], [0]) = Inr r)"
        using render_conversation_Inr_iff [of tok "\<lparr>messages = msgs\<rparr>" L] by simp
      also have "\<dots> \<longleftrightarrow> (\<forall>i<length msgs.
                       role (msgs ! i) = (if i mod 2 = 0 then ''user'' else ''assistant'')
                     \<and> content_ok (msgs ! i))"
        using render_messages_ok [of tok sp 0 msgs "([bos_token_id tok], [0])"]
        by (simp add: must_be_from_def)
      finally show "(\<exists>r. render_conversation tok \<lparr>messages = msgs\<rparr> L = Inr r)
               \<longleftrightarrow> msgs \<noteq> []
                 \<and> (\<forall>i<length msgs.
                       role (msgs ! i) = (if i mod 2 = 0 then ''user'' else ''assistant'')
                     \<and> content_ok (msgs ! i))"
        using False by simp
    qed
  qed
  let ?c = "\<lparr>messages = [\<lparr>role = ''user'', content = Str s\<rparr>]\<rparr>"
  have "emit_conversation tok ?c
      = Inr (bos_token_id tok # user_start sp # encode_ordinary (enc tok) s @ [user_end sp],
             replicate (length (encode_ordinary (enc tok) s) + 3) 0)"
    using emit_conversation_plain [OF assms, of ?c]
    by (simp add: render_message_def must_be_from_def add_tokens_def encode_str_def
        Let_def replicate_zero_frame)
  then have 2: "render_conversation tok ?c L
           = Inr (py_slice_to (bos_token_id tok # user_start sp # encode_ordinary (enc tok) s
                                @ [user_end sp]) L,
                  py_slice_to (replicate (length (encode_ordinary (enc tok) s) + 3) 0) L)"
    by (simp add: render_conversation_def)
  have 3: "\<forall>ids msk. render_conversation tok ?c L = Inr (ids, msk) \<longrightarrow> (\<forall>v\<in>set msk. v = 0)"
  proof (intro allI impI ballI)
    fix ids msk v
    assume "render_conversation tok ?c L = Inr (ids, msk)" and v: "v \<in> set msk"
    with 2 have "msk = py_slice_to (replicate (length (encode_ordinary (enc tok) s) + 3) 0) L"
      by simp
    with v set_py_slice_to [of "replicate (length (encode_ordinary (enc tok) s) + 3) (0::int)" L]
    show "v = 0" by auto
  qed
  from 1 2 3 show ?thesis by blast
qed


theorem role_alternation_only_parity_witness:
  "fetch_specials byte_tokenizer =
     Inr \<lparr>user_start = 257, user_end = 258, assistant_start = 259, assistant_end = 260,
          python_start = 261, python_end = 262, output_start = 263, output_end = 264\<rparr>
   \<and> render_conversation byte_tokenizer
       \<lparr>messages = [\<lparr>role = ''user'', content = Str ''hi''\<rparr>]\<rparr> 2048
     = Inr ([256, 257, 104, 105, 258], [0, 0, 0, 0, 0])
   \<and> render_conversation byte_tokenizer
       \<lparr>messages = [\<lparr>role = ''user'', content = Str ''hi''\<rparr>,
                    \<lparr>role = ''assistant'', content = Str ''yo''\<rparr>,
                    \<lparr>role = ''user'', content = Str ''ok''\<rparr>]\<rparr> 2048
     = Inr ([256, 257, 104, 105, 258, 259, 121, 111, 260, 257, 111, 107, 258],
            [0, 0, 0, 0, 0, 0, 1, 1, 1, 0, 0, 0, 0])"
proof -
  note sp = byte_tokenizer_specials
  have e: "encode_ordinary (enc byte_tokenizer) ''hi'' = [104, 105]"
    by code_simp
  have b: "bos_token_id byte_tokenizer = 256"
    by (simp add: byte_tokenizer_def)
  note t = role_alternation_only_parity [OF sp, where s = "''hi''" and L = 2048
             and msgs = "[]"]
  have one: "render_conversation byte_tokenizer
       \<lparr>messages = [\<lparr>role = ''user'', content = Str ''hi''\<rparr>]\<rparr> 2048
     = Inr ([256, 257, 104, 105, 258], [0, 0, 0, 0, 0])"
    using t [THEN conjunct2, THEN conjunct1] e b
    by (simp add: py_slice_to_def numeral_nat)
  have three: "render_conversation byte_tokenizer
       \<lparr>messages = [\<lparr>role = ''user'', content = Str ''hi''\<rparr>,
                    \<lparr>role = ''assistant'', content = Str ''yo''\<rparr>,
                    \<lparr>role = ''user'', content = Str ''ok''\<rparr>]\<rparr> 2048
     = Inr ([256, 257, 104, 105, 258, 259, 121, 111, 260, 257, 111, 107, 258],
            [0, 0, 0, 0, 0, 0, 1, 1, 1, 0, 0, 0, 0])"
    by code_simp
  from sp one three show ?thesis by (intro conjI)
qed

section \<open>C6: malformed conversations are rejected\<close>

lemma not_ok_user: "role m = ''user'' \<Longrightarrow> \<not> is_Str (content m) \<Longrightarrow> \<not> content_ok m"
  by (cases "content m") (simp_all add: is_Str_def content_ok_def)

lemma not_ok_other: "content m = Other \<Longrightarrow> \<not> content_ok m"
  by (simp add: content_ok_def)

lemma not_ok_unknown: "has_unknown_part m \<Longrightarrow> \<not> content_ok m"
  by (cases "content m")
     (auto simp: has_unknown_part_def content_ok_def list_ex_iff list_all_iff)

lemma py_add_Str_Inr:
  "py_add c (Str b) = Inr c' \<Longrightarrow> \<exists>a. c = Str a \<and> c' = Str (a @ b)"
  by (cases c) auto

lemma py_add_Inr_Str:
  "py_add (Str a) c = Inr c' \<Longrightarrow> \<exists>b. c = Str b \<and> c' = Str (a @ b)"
  by (cases c) auto

lemma merge_system_cases:
  assumes "merge_system conv = Inr ms'"
  obtains (plain) "messages conv \<noteq> []" "role (hd (messages conv)) \<noteq> ''system''"
      "ms' = messages conv"
  | (merged) m0 m1 rest s u where "messages conv = m0 # m1 # rest"
      "role m0 = ''system''" "role m1 = ''user''" "content m0 = Str s" "content m1 = Str u"
      "ms' = m1\<lparr>content := Str (s @ [CHR 0x0A, CHR 0x0A] @ u)\<rparr> # rest"
proof (cases "messages conv")
  case Nil
  with assms show ?thesis by (simp add: merge_system_def)
next
  case (Cons m0 rest)
  show ?thesis
  proof (cases "role m0 = ''system''")
    case False
    with Cons assms have "ms' = messages conv" by (simp add: merge_system_def)
    moreover from Cons have "messages conv \<noteq> []" by simp
    moreover from Cons False have "role (hd (messages conv)) \<noteq> ''system''" by simp
    ultimately show ?thesis by (intro plain)
  next
    case True
    with Cons assms obtain m1 rest' where rest: "rest = m1 # rest'"
      by (cases rest) (simp_all add: merge_system_def)
    with Cons True assms have u: "role m1 = ''user''"
      by (simp add: merge_system_def split: if_splits)
    with Cons True rest assms obtain c0 c where
      c0: "py_add (content m0) (Str [CHR 0x0A, CHR 0x0A]) = Inr c0" and
      c: "py_add c0 (content m1) = Inr c" and ms': "ms' = m1\<lparr>content := c\<rparr> # rest'"
      by (auto simp: merge_system_def split: sum.splits)
    from py_add_Str_Inr [OF c0] obtain s where s: "content m0 = Str s"
      "c0 = Str (s @ [CHR 0x0A, CHR 0x0A])" by blast
    from py_add_Inr_Str [OF c [unfolded s(2)]] obtain u' where u': "content m1 = Str u'"
      "c = Str ((s @ [CHR 0x0A, CHR 0x0A]) @ u')" by blast
    show ?thesis
      using Cons rest True u s(1) u'(1) ms' u'(2) by (intro merged [of m0 m1 rest' s u']) simp_all
  qed
qed

lemma merge_system_keeps_bad:
  assumes "merge_system conv = Inr ms'" and "m \<in> set (messages conv)" and "\<not> content_ok m"
  shows "m \<in> set ms'"
  using assms(1)
proof (cases rule: merge_system_cases)
  case plain
  with assms(2) show ?thesis by simp
next
  case (merged m0 m1 rest s u)
  then have "content_ok m0" and "content_ok m1" by (simp_all add: content_ok_def)
  with assms(2,3) merged(1) have "m \<in> set rest" by auto
  with merged(6) show ?thesis by simp
qed

lemma emit_conversation_Inr:
  assumes "emit_conversation tok conv = Inr r"
  obtains ms' sp where "merge_system conv = Inr ms'" "ms' \<noteq> []" "fetch_specials tok = Inr sp"
    "render_messages tok sp 0 ms' ([bos_token_id tok], [0]) = Inr r"
proof -
  from assms have "\<exists>ms' sp. merge_system conv = Inr ms' \<and> ms' \<noteq> []
      \<and> fetch_specials tok = Inr sp
      \<and> render_messages tok sp 0 ms' ([bos_token_id tok], [0]) = Inr r"
    by (auto simp: emit_conversation_def get_bos_token_id_def add_tokens_def
             split: sum.splits if_splits)
  with that show ?thesis by blast
qed

lemma emit_conversation_content_ok:
  assumes "emit_conversation tok conv = Inr r" and "m \<in> set (messages conv)"
  shows "content_ok m"
proof (rule ccontr)
  assume bad: "\<not> content_ok m"
  from assms(1) obtain ms' sp where
    mg: "merge_system conv = Inr ms'" and
    rm: "render_messages tok sp 0 ms' ([bos_token_id tok], [0]) = Inr r"
    by (rule emit_conversation_Inr)
  from merge_system_keeps_bad [OF mg assms(2) bad] obtain k where
    "k < length ms'" "ms' ! k = m" by (auto simp: in_set_conv_nth)
  moreover from rm render_messages_ok [of tok sp 0 ms' "([bos_token_id tok], [0])"]
  have "\<forall>k<length ms'. content_ok (ms' ! k)" by auto
  ultimately show False using bad by auto
qed

lemma emit_conversation_first_not_assistant:
  assumes "emit_conversation tok conv = Inr r" and "messages conv = m0 # rest"
  shows "role m0 \<noteq> ''assistant''"
proof
  assume a: "role m0 = ''assistant''"
  from assms(1) obtain ms' sp where
    mg: "merge_system conv = Inr ms'" and
    rm: "render_messages tok sp 0 ms' ([bos_token_id tok], [0]) = Inr r"
    by (rule emit_conversation_Inr)
  from a assms(2) have "merge_system conv = Inr (m0 # rest)"
    by (simp add: merge_system_def)
  with mg have "ms' = m0 # rest" by simp
  with rm render_messages_ok [of tok sp 0 ms' "([bos_token_id tok], [0])"]
  have "role m0 = must_be_from 0" by auto
  with a show False by (simp add: must_be_from_def)
qed

text \<open>
  C6. For every malformed conversation (an empty message list, a first message from
  the assistant, a leading system message not followed by a user message, a user
  message with non-string content, a content of unrecognized type, an assistant part
  list with a part of unknown kind), every tokenizer and every bound,
  \<^verbatim>\<open>render_conversation\<close> raises: its result is an error, which carries no rendered
  sequence.
\<close>

theorem malformed_conversation_rejected:
  assumes "malformed conv"
  shows "\<exists>e. render_conversation tok conv L = Inl e"
proof (rule ccontr)
  assume "\<nexists>e. render_conversation tok conv L = Inl e"
  then obtain r where "render_conversation tok conv L = Inr r"
    by (cases "render_conversation tok conv L") auto
  then obtain r' where e: "emit_conversation tok conv = Inr r'"
    by (auto dest: render_conversation_emit)
  from e obtain ms' where mg: "merge_system conv = Inr ms'"
    by (rule emit_conversation_Inr)
  show False
  proof (cases "messages conv")
    case Nil
    with mg show False by (simp add: merge_system_def)
  next
    case (Cons m0 rest)
    with assms consider
        (assistant_first) "role m0 = ''assistant''"
      | (system_alone) "role m0 = ''system''"
          "(case rest of [] \<Rightarrow> True | m1 # rest' \<Rightarrow> role m1 \<noteq> ''user'')"
      | (user_content) m where "m \<in> set (messages conv)" "role m = ''user''"
          "\<not> is_Str (content m)"
      | (other_content) m where "m \<in> set (messages conv)" "content m = Other"
      | (unknown_part) m where "m \<in> set (messages conv)" "has_unknown_part m"
      unfolding malformed_def list_ex_iff by (simp only: list.case) blast
    then show False
    proof cases
      case assistant_first
      with emit_conversation_first_not_assistant [OF e Cons] show False by simp
    next
      case system_alone
      with Cons mg show False
        by (cases rest) (simp_all add: merge_system_def)
    next
      case (user_content m)
      with emit_conversation_content_ok [OF e user_content(1)] show False
        by (simp add: not_ok_user)
    next
      case (other_content m)
      with emit_conversation_content_ok [OF e other_content(1)] show False
        by (simp add: not_ok_other)
    next
      case (unknown_part m)
      with emit_conversation_content_ok [OF e unknown_part(1)] show False
        by (simp add: not_ok_unknown)
    qed
  qed
qed

theorem malformed_conversation_rejected_witness:
  "malformed \<lparr>messages = [\<lparr>role = ''assistant'', content = Str ''hi''\<rparr>]\<rparr>
   \<and> render_conversation byte_tokenizer
       \<lparr>messages = [\<lparr>role = ''assistant'', content = Str ''hi''\<rparr>]\<rparr> 2048
     = Inl AssertionError
   \<and> render_conversation byte_tokenizer \<lparr>messages = []\<rparr> 2048 = Inl IndexError
   \<and> render_conversation byte_tokenizer
       \<lparr>messages = [\<lparr>role = ''system'', content = Str ''S''\<rparr>]\<rparr> 2048 = Inl IndexError
   \<and> render_conversation byte_tokenizer
       \<lparr>messages = [\<lparr>role = ''system'', content = Str ''S''\<rparr>,
                    \<lparr>role = ''assistant'', content = Str ''A''\<rparr>]\<rparr> 2048
     = Inl AssertionError
   \<and> render_conversation byte_tokenizer
       \<lparr>messages = [\<lparr>role = ''user'',
                      content = Parts [\<lparr>ptype = ''text'', ptext = ''q''\<rparr>]\<rparr>]\<rparr> 2048
     = Inl AssertionError
   \<and> render_conversation byte_tokenizer
       \<lparr>messages = [\<lparr>role = ''user'', content = Str ''q''\<rparr>,
                    \<lparr>role = ''assistant'', content = Other\<rparr>]\<rparr> 2048
     = Inl ValueError
   \<and> render_conversation byte_tokenizer
       \<lparr>messages = [\<lparr>role = ''user'', content = Str ''q''\<rparr>,
                    \<lparr>role = ''assistant'',
                      content = Parts [\<lparr>ptype = ''text'', ptext = ''a''\<rparr>,
                                       \<lparr>ptype = ''bogus'', ptext = ''b''\<rparr>]\<rparr>]\<rparr> 2048
     = Inl ValueError"
proof -
  have m: "malformed \<lparr>messages = [\<lparr>role = ''assistant'', content = Str ''hi''\<rparr>]\<rparr>"
    by (simp add: malformed_def)
  have v: "render_conversation byte_tokenizer
       \<lparr>messages = [\<lparr>role = ''assistant'', content = Str ''hi''\<rparr>]\<rparr> 2048
     = Inl AssertionError"
    by code_simp
  have others: "render_conversation byte_tokenizer \<lparr>messages = []\<rparr> 2048 = Inl IndexError
   \<and> render_conversation byte_tokenizer
       \<lparr>messages = [\<lparr>role = ''system'', content = Str ''S''\<rparr>]\<rparr> 2048 = Inl IndexError
   \<and> render_conversation byte_tokenizer
       \<lparr>messages = [\<lparr>role = ''system'', content = Str ''S''\<rparr>,
                    \<lparr>role = ''assistant'', content = Str ''A''\<rparr>]\<rparr> 2048
     = Inl AssertionError
   \<and> render_conversation byte_tokenizer
       \<lparr>messages = [\<lparr>role = ''user'',
                      content = Parts [\<lparr>ptype = ''text'', ptext = ''q''\<rparr>]\<rparr>]\<rparr> 2048
     = Inl AssertionError
   \<and> render_conversation byte_tokenizer
       \<lparr>messages = [\<lparr>role = ''user'', content = Str ''q''\<rparr>,
                    \<lparr>role = ''assistant'', content = Other\<rparr>]\<rparr> 2048
     = Inl ValueError
   \<and> render_conversation byte_tokenizer
       \<lparr>messages = [\<lparr>role = ''user'', content = Str ''q''\<rparr>,
                    \<lparr>role = ''assistant'',
                      content = Parts [\<lparr>ptype = ''text'', ptext = ''a''\<rparr>,
                                       \<lparr>ptype = ''bogus'', ptext = ''b''\<rparr>]\<rparr>]\<rparr> 2048
     = Inl ValueError"
    by code_simp
  show ?thesis
    using m v others malformed_conversation_rejected [OF m, of byte_tokenizer 2048]
    by (intro conjI) simp_all
qed

section \<open>C2: the mask of a position is fixed by what the position was emitted for\<close>

lemma glue_Nil: "glue st [] = st"
  by (simp add: glue_def)

lemma glue_append: "glue (glue st a) b = glue st (a @ b)"
  by (simp add: glue_def)

lemma add_tokens_tagged:
  "v = origin_mask og \<Longrightarrow> add_tokens ts v st = glue st (tagged og (as_list ts))"
  by (simp add: add_tokens_def glue_def tagged_def Let_def comp_def map_replicate_const)

lemma tagged_Nil: "tagged og [] = []"
  by (simp add: tagged_def)

lemma tagged_Cons: "tagged og (t # ts) = (t, og) # tagged og ts"
  by (simp add: tagged_def)

lemma tagged_append: "tagged og (a @ b) = tagged og a @ tagged og b"
  by (simp add: tagged_def)

lemma render_part_trace:
  assumes "render_part tok sp p st = Inr st'"
  shows "st' = glue st (part_trace tok sp p)"
proof -
  consider (t) "ptype p = ''text''" | (c) "ptype p = ''python''"
    | (o) "ptype p = ''python_output''"
    using assms unfolding render_part_def Let_def by (auto split: if_splits)
  then show ?thesis
  proof cases
    case t
    with assms show ?thesis
      by (simp add: render_part_def part_trace_def
          add_tokens_tagged [where og = FromAssistantText])
  next
    case c
    with assms show ?thesis
      by (simp add: render_part_def part_trace_def
          add_tokens_tagged [where og = FromToolCall] glue_append
          tagged_Nil tagged_Cons tagged_append)
  next
    case o
    with assms show ?thesis
      by (simp add: render_part_def part_trace_def
          add_tokens_tagged [where og = FromToolOutput] glue_append
          tagged_Nil tagged_Cons tagged_append)
  qed
qed

lemma render_parts_trace:
  "render_parts tok sp ps st = Inr st'
     \<Longrightarrow> st' = glue st (concat (map (part_trace tok sp) ps))"
proof (induction ps arbitrary: st)
  case Nil
  then show ?case by (simp add: glue_Nil)
next
  case (Cons p ps)
  from Cons.prems obtain st1 where
    p: "render_part tok sp p st = Inr st1" and ps: "render_parts tok sp ps st1 = Inr st'"
    by (auto split: sum.splits)
  from Cons.IH [OF ps] render_part_trace [OF p] show ?case
    by (simp add: glue_append)
qed

lemma render_message_trace:
  assumes "render_message tok sp i m st = Inr st'"
  shows "st' = glue st (message_trace tok sp m)"
  using assms
proof (cases rule: render_message_cases)
  case (user c)
  then show ?thesis
    by (simp add: message_trace_def add_tokens_tagged [where og = FromUser]
        glue_append tagged_Nil tagged_Cons tagged_append)
next
  case (assistant_str c)
  have s: "add_tokens (One (assistant_start sp)) 0 st
      = glue st [(assistant_start sp, FromAssistantStart)]"
    by (simp add: add_tokens_tagged [where og = FromAssistantStart] tagged_def)
  have b: "add_tokens (Many (encode_str tok c)) 1 st1
      = glue st1 (tagged FromAssistantText (encode_str tok c))" for st1
    by (simp add: add_tokens_tagged [where og = FromAssistantText])
  have e: "add_tokens (One (assistant_end sp)) 1 st2
      = glue st2 [(assistant_end sp, FromAssistantEnd)]" for st2
    by (simp add: add_tokens_tagged [where og = FromAssistantEnd] tagged_def)
  from assistant_str show ?thesis
    by (simp add: message_trace_def s b e glue_append)
next
  case (assistant_parts ps st2)
  have s: "add_tokens (One (assistant_start sp)) 0 st
      = glue st [(assistant_start sp, FromAssistantStart)]"
    by (simp add: add_tokens_tagged [where og = FromAssistantStart] tagged_def)
  have e: "add_tokens (One (assistant_end sp)) 1 st3
      = glue st3 [(assistant_end sp, FromAssistantEnd)]" for st3
    by (simp add: add_tokens_tagged [where og = FromAssistantEnd] tagged_def)
  from render_parts_trace [OF assistant_parts(4)] assistant_parts(1,3,5) show ?thesis
    by (simp add: message_trace_def s e glue_append)
qed

lemma render_messages_trace:
  "render_messages tok sp i ms st = Inr st'
     \<Longrightarrow> st' = glue st (concat (map (message_trace tok sp) ms))"
proof (induction ms arbitrary: i st)
  case Nil
  then show ?case by (simp add: glue_Nil)
next
  case (Cons m ms)
  from Cons.prems obtain st1 where
    m: "render_message tok sp i m st = Inr st1" and
    ms: "render_messages tok sp (Suc i) ms st1 = Inr st'"
    by (auto split: sum.splits)
  from Cons.IH [OF ms] render_message_trace [OF m] show ?case
    by (simp add: glue_append)
qed

lemma emit_conversation_trace:
  assumes "emit_conversation tok conv = Inr (ids, msk)"
  shows "\<exists>msgs sp. merge_system conv = Inr msgs \<and> fetch_specials tok = Inr sp
           \<and> ids = map fst (conversation_trace tok sp msgs)
           \<and> msk = map (origin_mask \<circ> snd) (conversation_trace tok sp msgs)"
proof -
  from assms obtain msgs sp where
    mg: "merge_system conv = Inr msgs" and sp: "fetch_specials tok = Inr sp" and
    rm: "render_messages tok sp 0 msgs ([bos_token_id tok], [0]) = Inr (ids, msk)"
    by (rule emit_conversation_Inr)
  from render_messages_trace [OF rm]
  have "ids = map fst (conversation_trace tok sp msgs)
      \<and> msk = map (origin_mask \<circ> snd) (conversation_trace tok sp msgs)"
    by (simp add: glue_def conversation_trace_def)
  with mg sp show ?thesis by blast
qed

lemma py_slice_to_map: "py_slice_to (map f xs) n = map f (py_slice_to xs n)"
  by (simp add: py_slice_to_def take_map)

text \<open>
  C2. In every rendered conversation the ids are those of the emission trace of the
  conversation (after the system-message merge, cut at the bound), position by
  position, and every position emitted for a user message (user-start, the text's
  ids, user-end) has mask 0, every position emitted for a tool-call part, its start
  and end tokens included, has mask 1, every position emitted for a tool-output
  part, its start and end tokens included, has mask 0, and the assistant-end
  position of every assistant message has mask 1.
\<close>

theorem mask_by_origin:
  assumes "render_conversation tok conv L = Inr (ids, msk)"
  shows "\<exists>msgs sp tr.
           merge_system conv = Inr msgs \<and> fetch_specials tok = Inr sp
         \<and> tr = py_slice_to (conversation_trace tok sp msgs) L
         \<and> ids = map fst tr \<and> length msk = length tr
         \<and> (\<forall>p<length tr.
              (snd (tr ! p) = FromUser \<longrightarrow> msk ! p = 0)
            \<and> (snd (tr ! p) = FromToolCall \<longrightarrow> msk ! p = 1)
            \<and> (snd (tr ! p) = FromToolOutput \<longrightarrow> msk ! p = 0)
            \<and> (snd (tr ! p) = FromAssistantEnd \<longrightarrow> msk ! p = 1))"
proof -
  from render_conversation_emit [OF assms] obtain fids fmsk where
    e: "emit_conversation tok conv = Inr (fids, fmsk)" and
    ids: "ids = py_slice_to fids L" and msk: "msk = py_slice_to fmsk L"
    by auto
  from emit_conversation_trace [OF e] obtain msgs sp where
    mg: "merge_system conv = Inr msgs" and sp: "fetch_specials tok = Inr sp" and
    fids: "fids = map fst (conversation_trace tok sp msgs)" and
    fmsk: "fmsk = map (origin_mask \<circ> snd) (conversation_trace tok sp msgs)"
    by blast
  let ?tr = "py_slice_to (conversation_trace tok sp msgs) L"
  have i: "ids = map fst ?tr" unfolding ids fids by (rule py_slice_to_map)
  have m: "msk = map (origin_mask \<circ> snd) ?tr" unfolding msk fmsk by (rule py_slice_to_map)
  have "\<forall>p<length ?tr.
              (snd (?tr ! p) = FromUser \<longrightarrow> msk ! p = 0)
            \<and> (snd (?tr ! p) = FromToolCall \<longrightarrow> msk ! p = 1)
            \<and> (snd (?tr ! p) = FromToolOutput \<longrightarrow> msk ! p = 0)
            \<and> (snd (?tr ! p) = FromAssistantEnd \<longrightarrow> msk ! p = 1)"
    unfolding m by simp
  moreover have "length msk = length ?tr" unfolding m by simp
  ultimately show ?thesis using mg sp i by blast
qed



theorem mask_by_origin_witness:
  "render_conversation byte_tokenizer
     \<lparr>messages = [\<lparr>role = ''user'', content = Str ''hi''\<rparr>,
                  \<lparr>role = ''assistant'',
                    content = Parts [\<lparr>ptype = ''python'', ptext = ''1''\<rparr>,
                                     \<lparr>ptype = ''python_output'', ptext = ''2''\<rparr>]\<rparr>]\<rparr> 2048
     = Inr ([256, 257, 104, 105, 258, 259, 261, 49, 262, 263, 50, 264, 260],
            [0, 0, 0, 0, 0, 0, 1, 1, 1, 0, 0, 0, 1])
   \<and> py_slice_to (conversation_trace byte_tokenizer
        \<lparr>user_start = 257, user_end = 258, assistant_start = 259, assistant_end = 260,
         python_start = 261, python_end = 262, output_start = 263, output_end = 264\<rparr>
        [\<lparr>role = ''user'', content = Str ''hi''\<rparr>,
         \<lparr>role = ''assistant'',
           content = Parts [\<lparr>ptype = ''python'', ptext = ''1''\<rparr>,
                            \<lparr>ptype = ''python_output'', ptext = ''2''\<rparr>]\<rparr>]) 2048
     = [(256, FromBos), (257, FromUser), (104, FromUser), (105, FromUser), (258, FromUser),
        (259, FromAssistantStart), (261, FromToolCall), (49, FromToolCall),
        (262, FromToolCall), (263, FromToolOutput), (50, FromToolOutput),
        (264, FromToolOutput), (260, FromAssistantEnd)]"
proof -
  define ms where "ms = [\<lparr>role = ''user'', content = Str ''hi''\<rparr>,
                  \<lparr>role = ''assistant'',
                    content = Parts [\<lparr>ptype = ''python'', ptext = ''1''\<rparr>,
                                     \<lparr>ptype = ''python_output'', ptext = ''2''\<rparr>]\<rparr>]"
  define spb where "spb = \<lparr>user_start = 257, user_end = 258, assistant_start = 259,
         assistant_end = 260, python_start = 261, python_end = 262,
         output_start = 263, output_end = 264 :: int\<rparr>"
  define ids0 where "ids0 = [256, 257, 104, 105, 258, 259, 261, 49, 262, 263, 50, 264, 260 :: int]"
  define msk0 where "msk0 = [0, 0, 0, 0, 0, 0, 1, 1, 1, 0, 0, 0, 1 :: int]"
  have h: "render_conversation byte_tokenizer \<lparr>messages = ms\<rparr> 2048 = Inr (ids0, msk0)"
    unfolding ms_def ids0_def msk0_def by code_simp
  have mg: "merge_system \<lparr>messages = ms\<rparr> = Inr ms"
    unfolding ms_def by (simp add: merge_system_def)
  have fs: "fetch_specials byte_tokenizer = Inr spb"
    unfolding spb_def by (rule byte_tokenizer_specials)
  from mask_by_origin [OF h] obtain msgs sp tr where
    1: "merge_system \<lparr>messages = ms\<rparr> = Inr msgs" and
    2: "fetch_specials byte_tokenizer = Inr sp" and
    3: "tr = py_slice_to (conversation_trace byte_tokenizer sp msgs) 2048" and
    4: "ids0 = map fst tr"
    by (elim exE conjE) (rule that)
  from 1 mg have m: "msgs = ms" by simp
  from 2 fs have s: "sp = spb" by simp
  have i: "map fst (py_slice_to (conversation_trace byte_tokenizer spb ms) 2048) = ids0"
    using 3 4 unfolding m s by simp
  have tr: "py_slice_to (conversation_trace byte_tokenizer spb ms) 2048
     = [(256, FromBos), (257, FromUser), (104, FromUser), (105, FromUser), (258, FromUser),
        (259, FromAssistantStart), (261, FromToolCall), (49, FromToolCall),
        (262, FromToolCall), (263, FromToolOutput), (50, FromToolOutput),
        (264, FromToolOutput), (260, FromAssistantEnd)]"
    unfolding ms_def spb_def by code_simp
  from h tr i show ?thesis
    unfolding ms_def spb_def ids0_def msk0_def by (intro conjI)
qed

section \<open>C7: the ids of the reserved names\<close>

lemma special_tokens_dict_keys: "map fst (special_tokens_dict off) = SPECIAL_TOKENS"
  by (simp add: special_tokens_dict_def SPECIAL_TOKENS_def)

lemma distinct_SPECIAL_TOKENS: "distinct SPECIAL_TOKENS"
  by (simp add: SPECIAL_TOKENS_def)

lemma special_tokens_dict_nth:
  assumes "i < length SPECIAL_TOKENS"
  shows "map_of (special_tokens_dict off) (SPECIAL_TOKENS ! i) = Some (off + int i)"
proof -
  from assms have "(i, SPECIAL_TOKENS ! i) \<in> set (enumerate 0 SPECIAL_TOKENS)"
    by (simp add: in_set_enumerate_eq)
  then have "(SPECIAL_TOKENS ! i, off + int i) \<in> set (special_tokens_dict off)"
    unfolding special_tokens_dict_def set_map by (rule image_eqI [rotated]) simp
  moreover have "distinct (map fst (special_tokens_dict off))"
    by (simp add: special_tokens_dict_keys distinct_SPECIAL_TOKENS)
  ultimately show ?thesis by (simp add: map_of_eq_Some_iff)
qed

lemma trained_encoding_reserved:
  assumes "map_of mergeable_ranks n = None"
  shows "encode_single_token (trained_encoding ordinary mergeable_ranks) n
       = map_of (special_tokens_dict (int (length mergeable_ranks))) n"
  using assms by (simp add: trained_encoding_def Let_def)

lemma trained_encoding_nth:
  assumes "\<forall>n\<in>set SPECIAL_TOKENS. map_of mergeable_ranks n = None"
    and "i < length SPECIAL_TOKENS"
  shows "encode_special_enc (trained_encoding ordinary mergeable_ranks) (SPECIAL_TOKENS ! i)
       = Inr (int (length mergeable_ranks) + int i)"
proof -
  from assms have "map_of mergeable_ranks (SPECIAL_TOKENS ! i) = None" by simp
  from trained_encoding_reserved [OF this] special_tokens_dict_nth [OF assms(2)]
  show ?thesis by (simp add: encode_special_enc_def)
qed

text \<open>
  C7, as the code has it. In the encoding that \<^verbatim>\<open>train_from_iterator\<close> builds, when no
  reserved name is itself an ordinary token of the trained vocabulary, the \<open>i\<close>-th
  name of \<open>SPECIAL_TOKENS\<close> resolves to the id \<open>tokens_offset + i\<close>, where
  \<open>tokens_offset\<close> is the size of the trained vocabulary; hence two reserved names
  that resolve to the same id are the same name. Initialization itself, for any
  encoding, only looks the BOS name up: it raises KeyError when that name is unknown
  and otherwise returns the tokenizer with the encoding and that id, whatever the
  other reserved names resolve to.
\<close>

theorem trained_reserved_ids_by_position:
  assumes "\<forall>n\<in>set SPECIAL_TOKENS. map_of mergeable_ranks n = None"
  shows "(\<forall>i<length SPECIAL_TOKENS.
            encode_special_enc (trained_encoding ordinary mergeable_ranks) (SPECIAL_TOKENS ! i)
              = Inr (int (length mergeable_ranks) + int i))
       \<and> (\<forall>n1\<in>set SPECIAL_TOKENS. \<forall>n2\<in>set SPECIAL_TOKENS.
            encode_special_enc (trained_encoding ordinary mergeable_ranks) n1
              = encode_special_enc (trained_encoding ordinary mergeable_ranks) n2
            \<longrightarrow> n1 = n2)
       \<and> init_tokenizer e bos_token
           = (case encode_single_token e bos_token of
                None \<Rightarrow> Inl KeyError
              | Some b \<Rightarrow> Inr \<lparr>enc = e, bos_token_id = b\<rparr>)"
proof (intro conjI allI impI ballI)
  fix i
  assume "i < length SPECIAL_TOKENS"
  with assms show "encode_special_enc (trained_encoding ordinary mergeable_ranks)
      (SPECIAL_TOKENS ! i) = Inr (int (length mergeable_ranks) + int i)"
    by (rule trained_encoding_nth)
next
  fix n1 n2
  assume n1: "n1 \<in> set SPECIAL_TOKENS" and n2: "n2 \<in> set SPECIAL_TOKENS"
    and eq: "encode_special_enc (trained_encoding ordinary mergeable_ranks) n1
              = encode_special_enc (trained_encoding ordinary mergeable_ranks) n2"
  from n1 obtain i where i: "i < length SPECIAL_TOKENS" "n1 = SPECIAL_TOKENS ! i"
    by (auto simp: in_set_conv_nth)
  from n2 obtain j where j: "j < length SPECIAL_TOKENS" "n2 = SPECIAL_TOKENS ! j"
    by (auto simp: in_set_conv_nth)
  from eq trained_encoding_nth [OF assms i(1), of ordinary]
    trained_encoding_nth [OF assms j(1), of ordinary]
  have "i = j" unfolding i(2) j(2) by simp
  with i(2) j(2) show "n1 = n2" by simp
next
  show "init_tokenizer e bos_token
           = (case encode_single_token e bos_token of
                None \<Rightarrow> Inl KeyError
              | Some b \<Rightarrow> Inr \<lparr>enc = e, bos_token_id = b\<rparr>)"
    by (simp add: init_tokenizer_def encode_special_enc_def split: option.splits)
qed

text \<open>The vocabulary of the 256 single bytes: user-start, the name at position 1, is 257.\<close>

theorem trained_reserved_ids_by_position_witness:
  "map_of byte_ranks ''<|user_start|>'' = None
   \<and> encode_special_enc (trained_encoding (map (\<lambda>c. int (of_char c))) byte_ranks)
       ''<|user_start|>'' = Inr 257"
proof -
  have h: "\<forall>n\<in>set SPECIAL_TOKENS. map_of byte_ranks n = None"
    by (auto simp: SPECIAL_TOKENS_def intro!: map_of_byte_ranks_other)
  have i: "(1::nat) < length SPECIAL_TOKENS" by (simp add: SPECIAL_TOKENS_def)
  have n: "SPECIAL_TOKENS ! 1 = ''<|user_start|>''" by (simp add: SPECIAL_TOKENS_def)
  note t = trained_reserved_ids_by_position [OF h,
      where ordinary = "map (\<lambda>c. int (of_char c))", THEN conjunct1, THEN spec, THEN mp, OF i]
  from t have "encode_special_enc (trained_encoding (map (\<lambda>c. int (of_char c))) byte_ranks)
       ''<|user_start|>'' = Inr 257"
    unfolding n by (simp add: length_byte_ranks)
  moreover have "map_of byte_ranks ''<|user_start|>'' = None"
    by (simp add: map_of_byte_ranks_other)
  ultimately show ?thesis by (intro conjI)
qed

text \<open>
  An encoding in which user-start and user-end share the id 257 initializes without
  error, and the collision is not reported at render time either: the rendering
  carries 257 at both ends of the user turn.
\<close>

theorem colliding_reserved_ids_counterexample:
  "init_tokenizer colliding_encoding ''<|bos|>'' = Inr colliding_tokenizer
   \<and> encode_special colliding_tokenizer ''<|user_start|>'' = Inr 257
   \<and> encode_special colliding_tokenizer ''<|user_end|>'' = Inr 257
   \<and> render_conversation colliding_tokenizer
        \<lparr>messages = [\<lparr>role = ''user'', content = Str ''hi''\<rparr>]\<rparr> 2048
      = Inr ([256, 257, 104, 105, 257], [0, 0, 0, 0, 0])"
proof -
  have 1: "init_tokenizer colliding_encoding ''<|bos|>'' = Inr colliding_tokenizer"
    by (simp add: init_tokenizer_def encode_special_enc_def colliding_encoding_def
        colliding_tokenizer_def)
  have 2: "encode_special colliding_tokenizer ''<|user_start|>'' = Inr 257"
    by code_simp
  have 3: "encode_special colliding_tokenizer ''<|user_end|>'' = Inr 257"
    by code_simp
  have 4: "render_conversation colliding_tokenizer
        \<lparr>messages = [\<lparr>role = ''user'', content = Str ''hi''\<rparr>]\<rparr> 2048
      = Inr ([256, 257, 104, 105, 257], [0, 0, 0, 0, 0])"
    by code_simp
  from 1 2 3 4 show ?thesis by (intro conjI)
qed

end
